theory Spec2Isabelle
  imports Main "HOL-Library.Char_ord" "HOL-Library.List_Lexorder" "HOL-Library.Multiset"
    "HOL-Library.AList"
begin

section \<open>The Feather admin sidecar (tools/feather-ctl.py)\<close>

text \<open>
  The sidecar manages a directory of versioned binaries (\<open>BUILDS_DIR\<close>), a file naming
  the active one (\<open>ACTIVE_FILE\<close>), the live binary (\<open>FEATHER_BIN\<close>), a process supervisor
  and the health endpoint of the running service. The model passes all of that
  explicitly as a \<open>world\<close> record; each function of the source takes the world and
  returns its result with the world it leaves behind.

  Scope of the model. Strings are HOL strings (code points 0..255). \<open>BUILDS_DIR\<close> is a
  flat directory of regular files. \<open>BUILDS_DIR / f"{version}.bin"\<close> is resolved as
  pathlib and the kernel do: empty and \<open>.\<close> components are dropped, a single remaining
  component is an entry of the directory, a component longer than \<open>NAME_MAX\<close> makes
  \<open>exists()\<close> raise, and a path that leaves the directory (a leading \<open>/\<close> or \<open>..\<close>) is
  answered by the rest of the file system, the field \<open>elsewhere\<close>; that such a path may
  lead back into the directory is not followed. Statements about a version assume
  \<open>valid_version\<close>. File operations on existing files succeed (I/O faults such as a
  full disk or missing permissions are not modelled). The outcomes that the source itself
  configures or handles, or that depend on the request alone, are modelled: the health
  request failing or timing out, a response that does not parse, the restart command
  running into its 10 second timeout or not starting, a file name that is too long,
  and attribute access on a parsed value that is not a dict.
\<close>

subsection \<open>Python values and strings\<close>

text \<open>A Python float, as far as truthiness needs it: mantissa and exponent, or a special value.\<close>

datatype pyfloat = Finite int int | Infinite bool | NaN

text \<open>What \<open>json.loads\<close> returns and \<open>json.dumps\<close> accepts; a dict keeps unique keys in order.\<close>

datatype pyval =
    PNone
  | PBool bool
  | PInt int
  | PFloat pyfloat
  | PStr string
  | PList "pyval list"
  | PDict "(string \<times> pyval) list"

text \<open>Truth value testing, as \<open>if x\<close> and \<open>x if c else y\<close> apply it.\<close>

fun truthy :: "pyval \<Rightarrow> bool" where
  "truthy PNone = False"
| "truthy (PBool b) = b"
| "truthy (PInt i) = (i \<noteq> 0)"
| "truthy (PFloat (Finite m e)) = (m \<noteq> 0)"
| "truthy (PFloat (Infinite s)) = True"
| "truthy (PFloat NaN) = True"
| "truthy (PStr s) = (s \<noteq> [])"
| "truthy (PList xs) = (xs \<noteq> [])"
| "truthy (PDict kvs) = (kvs \<noteq> [])"

datatype exn =
    URLError
  | TimeoutError
  | HTTPError nat
  | JSONDecodeError
  | TimeoutExpired
  | AttributeError
  | OSError nat

text \<open>\<open>str.isspace\<close> on the code points below 256.\<close>

definition isspace :: "char \<Rightarrow> bool" where
  "isspace c = ((of_char c :: nat) \<in> {9, 10, 11, 12, 13, 28, 29, 30, 31, 32, 133, 160})"

text \<open>\<open>s.strip(chars)\<close>: drop the characters of a class at both ends.\<close>

definition strip_where :: "(char \<Rightarrow> bool) \<Rightarrow> string \<Rightarrow> string" where
  "strip_where P s = rev (dropWhile P (rev (dropWhile P s)))"

definition strip :: "string \<Rightarrow> string" where
  "strip s = strip_where isspace s"

definition strip_slash :: "string \<Rightarrow> string" where
  "strip_slash s = strip_where (\<lambda>c. c = CHR ''/'') s"

definition startswith :: "string \<Rightarrow> string \<Rightarrow> bool" where
  "startswith s p = (take (length p) s = p)"

definition endswith :: "string \<Rightarrow> string \<Rightarrow> bool" where
  "endswith s q = (length q \<le> length s \<and> drop (length s - length q) s = q)"

text \<open>\<open>s.rfind(c)\<close>: the last index of a character, \<open>None\<close> for Python's -1.\<close>

fun rfind :: "char \<Rightarrow> string \<Rightarrow> nat option" where
  "rfind c [] = None"
| "rfind c (x # xs) =
     (case rfind c xs of
        Some i \<Rightarrow> Some (Suc i)
      | None \<Rightarrow> if x = c then Some 0 else None)"

text \<open>
  \<open>PurePath.stem\<close> of a file name: the name without its last suffix, where a dot at
  index 0 or at the end does not start a suffix (\<open>0 < i < len(name) - 1\<close>).
\<close>

definition stem :: "string \<Rightarrow> string" where
  "stem name =
     (case rfind CHR ''.'' name of
        Some i \<Rightarrow> if 0 < i \<and> Suc i < length name then take i name else name
      | None \<Rightarrow> name)"

text \<open>
  Reading in text mode, as \<open>read_text()\<close> does: \<open>\r\n\<close> and a lone \<open>\r\<close> are read as
  \<open>\n\<close>.
\<close>

fun universal_newlines :: "string \<Rightarrow> string" where
  "universal_newlines [] = []"
| "universal_newlines [c] = [if c = CHR 0x0D then CHR 0x0A else c]"
| "universal_newlines (c # d # cs) =
     (if c = CHR 0x0D \<and> d = CHR 0x0A then CHR 0x0A # universal_newlines cs
      else if c = CHR 0x0D then CHR 0x0A # universal_newlines (d # cs)
      else c # universal_newlines (d # cs))"

text \<open>The length in bytes of a name as the file system sees it (\<open>os.fsencode\<close>, UTF-8).\<close>

definition fs_length :: "string \<Rightarrow> nat" where
  "fs_length s = sum_list (map (\<lambda>c. if (of_char c :: nat) < 128 then 1 else 2) s)"

text \<open>\<open>s.split("/")\<close>.\<close>

fun split_slash :: "string \<Rightarrow> string list" where
  "split_slash [] = [[]]"
| "split_slash (c # cs) =
     (if c = CHR ''/'' then [] # split_slash cs
      else (case split_slash cs of x # xs \<Rightarrow> (c # x) # xs | [] \<Rightarrow> [[c]]))"

text \<open>The components pathlib keeps of a path string: not the empty ones, not \<open>.\<close>.\<close>

definition parse_parts :: "string \<Rightarrow> string list" where
  "parse_parts s = filter (\<lambda>x. x \<noteq> [] \<and> x \<noteq> ''.'') (split_slash s)"

subsection \<open>The world\<close>

record regular_file =
  content :: string
  mtime :: int

text \<open>
  \<open>BUILDS_DIR\<close>: the text of the file \<open>active\<close> when it exists, and the other entries by
  name, in the order the directory scan yields them. A directory holds a name once:
  of several bindings of a name in the list, the first is the file.
\<close>

record directory =
  active_file :: "string option"
  entries :: "(string \<times> regular_file) list"

datatype body = Unparseable | Parsed pyval

text \<open>
  One request to \<open>HEALTH_URL\<close>: no connection, no answer within the timeout, or the
  final response with its status code and what \<open>json.loads\<close> makes of its body.
\<close>

datatype probe = Refused | Timed_out | Response nat body

text \<open>
  One run of the restart command: it exits with a status, it is killed after the
  timeout, or it cannot be started (\<open>OSError\<close> with its errno, 2 when \<open>sudo\<close> is not
  found).
\<close>

datatype run_outcome = Completed int | Expired | Not_started nat

record world =
  builds_dir :: "directory option"
  elsewhere :: "bool \<times> string list \<Rightarrow> exn + regular_file option"
  feather_bin :: "regular_file option"
  feather_mode :: nat
  probes :: "nat \<Rightarrow> probe"
  probes_made :: nat
  restarts :: "nat \<Rightarrow> run_outcome"
  restarts_made :: nat
  slept :: nat

text \<open>\<open>ACTIVE_FILE.read_text().strip() if ACTIVE_FILE.exists() else default\<close>.\<close>

definition read_active :: "string \<Rightarrow> world \<Rightarrow> string" where
  "read_active dflt w =
     (case builds_dir w of
        None \<Rightarrow> dflt
      | Some d \<Rightarrow>
          (case active_file d of None \<Rightarrow> dflt | Some t \<Rightarrow> strip (universal_newlines t)))"

text \<open>
  Where \<open>BUILDS_DIR / s\<close> leads: to an entry of the directory, below an entry (which
  would have to be a directory), or out of the directory, by an absolute path
  (\<open>True\<close>) or through \<open>..\<close>. The case of no component is \<open>BUILDS_DIR\<close> itself; it does
  not arise for a string that ends in \<open>.bin\<close> (lemma \<open>parse_parts_bin\<close>) and is put with
  the second.
\<close>

datatype target = Entry string | Below string | Outside bool "string list"

definition resolve :: "string \<Rightarrow> target" where
  "resolve s =
     (let ps = parse_parts s
      in if s \<noteq> [] \<and> hd s = CHR ''/'' then Outside True ps
         else (case ps of
                 [] \<Rightarrow> Below []
               | p # rest \<Rightarrow>
                   if p = ''..'' then Outside False ps
                   else if rest = [] then Entry p
                   else Below p))"

definition NAME_MAX :: nat where
  "NAME_MAX = 255"

definition PATH_MAX :: nat where
  "PATH_MAX = 4096"

text \<open>The length in bytes of the path that reaches the kernel.\<close>

definition path_bytes :: "bool \<Rightarrow> string list \<Rightarrow> nat" where
  "path_bytes absolute ps =
     (if absolute then (if ps = [] then 1 else 0) else length ''/usr/local/bin/feather-builds'')
     + sum_list (map (\<lambda>p. Suc (fs_length p)) ps)"

text \<open>
  \<open>(BUILDS_DIR / s).exists()\<close>, with the file found. A NUL character makes \<open>os.stat\<close>
  raise \<open>ValueError\<close>, which \<open>exists()\<close> answers with \<open>False\<close>; a path of \<open>PATH_MAX\<close> bytes
  or more and a component of more than \<open>NAME_MAX\<close> bytes in an existing directory
  make it raise \<open>OSError\<close> with errno 36 (\<open>ENAMETOOLONG\<close>), which \<open>exists()\<close> lets
  through; a missing directory or a regular file on the way is \<open>False\<close>.
\<close>

definition lookup :: "world \<Rightarrow> string \<Rightarrow> exn + regular_file option" where
  "lookup w s =
     (if CHR 0x00 \<in> set s then Inr None
      else (case resolve s of
              Outside absolute ps \<Rightarrow>
                if PATH_MAX \<le> path_bytes absolute ps then Inl (OSError 36)
                else if \<not> absolute \<and> builds_dir w = None then Inr None
                else elsewhere w (absolute, ps)
            | Entry n \<Rightarrow>
                if PATH_MAX \<le> path_bytes False (parse_parts s) then Inl (OSError 36)
                else (case builds_dir w of
                        None \<Rightarrow> Inr None
                      | Some d \<Rightarrow>
                          if NAME_MAX < fs_length n then Inl (OSError 36)
                          else Inr (map_of (entries d) n))
            | Below p \<Rightarrow>
                if PATH_MAX \<le> path_bytes False (parse_parts s) then Inl (OSError 36)
                else (case builds_dir w of
                        None \<Rightarrow> Inr None
                      | Some d \<Rightarrow>
                          if NAME_MAX < fs_length p then Inl (OSError 36) else Inr None)))"

text \<open>\<open>(BUILDS_DIR / s).unlink()\<close> of a file that \<open>lookup\<close> has found.\<close>

definition unlink :: "string \<Rightarrow> world \<Rightarrow> world" where
  "unlink s w =
     (case resolve s of
        Entry n \<Rightarrow>
          w\<lparr>builds_dir :=
              map_option (\<lambda>d. d\<lparr>entries := filter (\<lambda>(m, f). m \<noteq> n) (entries d)\<rparr>) (builds_dir w)\<rparr>
      | Below p \<Rightarrow> w
      | Outside absolute ps \<Rightarrow> w\<lparr>elsewhere := (elsewhere w)((absolute, ps) := Inr None)\<rparr>)"

text \<open>
  \<open>ACTIVE_FILE.write_text(t)\<close>; without the directory it raises \<open>FileNotFoundError\<close>
  (errno 2).
\<close>

definition write_active :: "string \<Rightarrow> world \<Rightarrow> exn + world" where
  "write_active t w =
     (case builds_dir w of
        None \<Rightarrow> Inl (OSError 2)
      | Some d \<Rightarrow> Inr (w\<lparr>builds_dir := Some (d\<lparr>active_file := Some t\<rparr>)\<rparr>))"

definition sleep :: "nat \<Rightarrow> world \<Rightarrow> world" where
  "sleep n w = w\<lparr>slept := slept w + n\<rparr>"

subsection \<open>list\_builds\<close>

record build =
  version :: string
  size_bytes :: nat
  timestamp :: int
  active :: bool

text \<open>
  \<open>BUILDS_DIR.glob("*.bin")\<close>: the files of the directory whose name ends in \<open>.bin\<close>, dot
  files included.
\<close>

definition glob_bin :: "(string \<times> regular_file) list \<Rightarrow> (string \<times> regular_file) list" where
  "glob_bin es = filter (\<lambda>(n, f). endswith n ''.bin'') (AList.clearjunk es)"

text \<open>\<open>sorted(xs, key=k, reverse=True)\<close>: stable, descending.\<close>

definition sorted_reverse :: "('a \<Rightarrow> string) \<Rightarrow> 'a list \<Rightarrow> 'a list" where
  "sorted_reverse k xs = rev (sort_key k (rev xs))"

definition list_builds :: "world \<Rightarrow> build list" where
  "list_builds w =
     (case builds_dir w of
        None \<Rightarrow> []
      | Some d \<Rightarrow>
          (let act = read_active '''' w
           in map (\<lambda>(n, f). \<lparr>version = stem n, size_bytes = length (content f),
                              timestamp = mtime f, active = (stem n = act)\<rparr>)
                  (sorted_reverse (\<lambda>(n, f). stem n) (glob_bin (entries d)))))"

subsection \<open>get\_health\<close>

text \<open>The body of the \<open>try\<close>: \<open>urlopen\<close>, \<open>read\<close>, \<open>json.loads\<close>.\<close>

fun fetch :: "probe \<Rightarrow> exn + pyval" where
  "fetch Refused = Inl URLError"
| "fetch Timed_out = Inl TimeoutError"
| "fetch (Response code b) =
     (if 200 \<le> code \<and> code < 300
      then (case b of Unparseable \<Rightarrow> Inl JSONDecodeError | Parsed v \<Rightarrow> Inr v)
      else Inl (HTTPError code))"

definition get_health :: "world \<Rightarrow> (exn + pyval) \<times> world" where
  "get_health w =
     (let w' = w\<lparr>probes_made := Suc (probes_made w)\<rparr>
      in case fetch (probes w (probes_made w)) of
           Inr v \<Rightarrow> (Inr v, w')
         | Inl e \<Rightarrow> (Inr PNone, w'))"

subsection \<open>promote\_version\<close>

definition copy2 :: "regular_file \<Rightarrow> world \<Rightarrow> world" where
  "copy2 f w = w\<lparr>feather_bin := Some f\<rparr>"

definition chmod :: "nat \<Rightarrow> world \<Rightarrow> world" where
  "chmod m w = w\<lparr>feather_mode := m\<rparr>"

text \<open>
  \<open>subprocess.run([...restart...], capture_output=True, timeout=10)\<close>; the exit status is
  not checked.
\<close>

definition restart :: "world \<Rightarrow> (exn + int) \<times> world" where
  "restart w =
     (let w' = w\<lparr>restarts_made := Suc (restarts_made w)\<rparr>
      in case restarts w (restarts_made w) of
           Completed rc \<Rightarrow> (Inr rc, w')
         | Expired \<Rightarrow> (Inl TimeoutExpired, w')
         | Not_started n \<Rightarrow> (Inl (OSError n), w'))"

text \<open>The loop \<open>for _ in range(n)\<close> with what follows it.\<close>

fun poll :: "nat \<Rightarrow> world \<Rightarrow> (exn + bool \<times> string) \<times> world" where
  "poll 0 w = (Inr (True, ''Restarted but health check not yet passing''), w)"
| "poll (Suc n) w =
     (case get_health (sleep 1 w) of
        (Inl e, w') \<Rightarrow> (Inl e, w')
      | (Inr h, w') \<Rightarrow> if truthy h then (Inr (True, ''OK''), w') else poll n w')"

definition promote_version :: "world \<Rightarrow> string \<Rightarrow> (exn + bool \<times> string) \<times> world" where
  "promote_version w vers =
     (case lookup w (vers @ ''.bin'') of
        Inl e \<Rightarrow> (Inl e, w)
      | Inr None \<Rightarrow> (Inr (False, ''Build '' @ vers @ '' not found''), w)
      | Inr (Some f) \<Rightarrow>
          (let w2 = chmod 493 (copy2 f w)
           in case write_active vers w2 of
                Inl e \<Rightarrow> (Inl e, w2)
              | Inr w3 \<Rightarrow>
                  (case restart w3 of
                     (Inl e, w') \<Rightarrow> (Inl e, w')
                   | (Inr rc, w') \<Rightarrow> poll 15 w')))"

subsection \<open>The request handlers\<close>

type_synonym response = "nat \<times> pyval"

definition build_json :: "build \<Rightarrow> pyval" where
  "build_json b =
     PDict [(''version'', PStr (version b)), (''size'', PInt (int (size_bytes b))),
            (''timestamp'', PInt (timestamp b)), (''active'', PBool (active b))]"

text \<open>\<open>health.get("uptime_secs", 0) if health else 0\<close>.\<close>

definition uptime_secs :: "pyval \<Rightarrow> exn + pyval" where
  "uptime_secs health =
     (if truthy health
      then (case health of
              PDict kvs \<Rightarrow> Inr (case map_of kvs ''uptime_secs'' of Some v \<Rightarrow> v | None \<Rightarrow> PInt 0)
            | _ \<Rightarrow> Inl AttributeError)
      else Inr (PInt 0))"

definition do_GET :: "world \<Rightarrow> string \<Rightarrow> (exn + response) \<times> world" where
  "do_GET w path =
     (if path = ''/admin/api/builds''
      then (Inr (200, PDict [(''builds'', PList (map build_json (list_builds w)))]), w)
      else if path = ''/admin/api/status''
      then (case get_health w of
              (Inl e, w') \<Rightarrow> (Inl e, w')
            | (Inr health, w') \<Rightarrow>
                (let act = read_active ''unknown'' w';
                     builds = list_builds w'
                 in case uptime_secs health of
                      Inl e \<Rightarrow> (Inl e, w')
                    | Inr up \<Rightarrow>
                        (Inr (200, PDict [(''active_version'', PStr act),
                                          (''healthy'', PBool (health \<noteq> PNone)),
                                          (''uptime_secs'', up),
                                          (''build_count'', PInt (int (length builds)))]), w')))
      else (Inr (404, PDict [(''error'', PStr ''not found'')]), w))"

definition do_DELETE :: "world \<Rightarrow> string \<Rightarrow> (exn + response) \<times> world" where
  "do_DELETE w path =
     (let prefix = ''/admin/api/builds/''
      in if startswith path prefix
         then (let vers = strip_slash (drop (length prefix) path)
               in if vers = []
                  then (Inr (400, PDict [(''error'', PStr ''version required'')]), w)
                  else if vers = read_active '''' w
                  then (Inr (409, PDict [(''error'', PStr ''Cannot delete the active build'')]), w)
                  else (case lookup w (vers @ ''.bin'') of
                          Inl e \<Rightarrow> (Inl e, w)
                        | Inr None \<Rightarrow>
                            (Inr (404, PDict [(''error'', PStr (''Build '' @ vers @ '' not found''))]), w)
                        | Inr (Some f) \<Rightarrow>
                            (Inr (200, PDict [(''ok'', PBool True), (''deleted'', PStr vers)]),
                             unlink (vers @ ''.bin'') w)))
         else (Inr (404, PDict [(''error'', PStr ''not found'')]), w))"

text \<open>A version as the data model has it: not empty, no path separator.\<close>

definition valid_version :: "string \<Rightarrow> bool" where
  "valid_version v = (v \<noteq> [] \<and> CHR ''/'' \<notin> set v)"

subsection \<open>Notions used in the statements\<close>

text \<open>
  The versions of the artifacts in the store, as \<open>list_builds\<close> derives them from the
  file names. The data model requires them to be unique per artifact; \<open>stem\<close> maps
  the two names \<open>.bin\<close> and \<open>.bin.bin\<close> to the same version, and no other two.
\<close>

definition store_versions :: "world \<Rightarrow> string list" where
  "store_versions w =
     (case builds_dir w of None \<Rightarrow> [] | Some d \<Rightarrow> map (\<lambda>(n, f). stem n) (glob_bin (entries d)))"

text \<open>
  What \<open>get_health\<close> returns for a probe: the parsed body, or \<open>None\<close>.
\<close>

definition snapshot :: "probe \<Rightarrow> pyval" where
  "snapshot p = (case fetch p of Inr v \<Rightarrow> v | Inl e \<Rightarrow> PNone)"

text \<open>
  One round of the poll loop on the world: a second of sleep and a probe.
\<close>

definition tick :: "world \<Rightarrow> world" where
  "tick w = (sleep 1 w)\<lparr>probes_made := Suc (probes_made w)\<rparr>"

text \<open>
  The world after steps 2 and 3 of a promotion: binary copied, mode set, pointer written.
\<close>

definition staged :: "string \<Rightarrow> regular_file \<Rightarrow> world \<Rightarrow> world" where
  "staged v f w =
     (chmod 493 (copy2 f w))
       \<lparr>builds_dir := map_option (\<lambda>d. d\<lparr>active_file := Some v\<rparr>) (builds_dir w)\<rparr>"

text \<open>
  The store has no two files that \<open>stem\<close> gives the same version: \<open>.bin\<close> and
  \<open>.bin.bin\<close> are not both present.
\<close>

definition no_stem_clash :: "world \<Rightarrow> bool" where
  "no_stem_clash w =
     (case builds_dir w of
        None \<Rightarrow> True
      | Some d \<Rightarrow> \<not> (''.bin'' \<in> fst ` set (entries d) \<and> ''.bin.bin'' \<in> fst ` set (entries d)))"

subsection \<open>Example worlds\<close>

text \<open>
  The store of the scenarios of the specification: two builds, with a health endpoint
  that is down, comes up after some attempts, or answers a fixed body, and a restart
  command that returns at once or runs into its timeout.
\<close>

definition down :: "nat \<Rightarrow> probe" where
  "down k = Refused"

definition up_after :: "nat \<Rightarrow> nat \<Rightarrow> probe" where
  "up_after n k = (if k < n then Refused else Response 200 (Parsed (PDict [(''uptime_secs'', PInt 42)])))"

definition answering :: "pyval \<Rightarrow> nat \<Rightarrow> probe" where
  "answering v k = Response 200 (Parsed v)"

definition prompt :: "nat \<Rightarrow> run_outcome" where
  "prompt k = Completed 0"

definition hanging :: "nat \<Rightarrow> run_outcome" where
  "hanging k = Expired"

definition nothing_else :: "bool \<times> string list \<Rightarrow> exn + regular_file option" where
  "nothing_else k = Inr None"

definition two_builds :: "(string \<times> regular_file) list" where
  "two_builds =
     [(''2024-01-01.bin'', \<lparr>content = ''one'', mtime = 1704067200\<rparr>),
      (''2024-02-01.bin'', \<lparr>content = ''two2'', mtime = 1706745600\<rparr>)]"

definition example_world :: "string option \<Rightarrow> (nat \<Rightarrow> probe) \<Rightarrow> (nat \<Rightarrow> run_outcome) \<Rightarrow> world" where
  "example_world act ps rs =
     \<lparr>builds_dir = Some \<lparr>active_file = act, entries = two_builds\<rparr>,
      elsewhere = nothing_else,
      feather_bin = None, feather_mode = 0, probes = ps, probes_made = 0,
      restarts = rs, restarts_made = 0, slept = 0\<rparr>"

text \<open>
  A store with the two dot files that share a version, and the store of the scenarios
  with a third build whose version ends in a space.
\<close>

definition dotted_builds :: "(string \<times> regular_file) list" where
  "dotted_builds =
     [(''.bin'', \<lparr>content = ''d'', mtime = 1\<rparr>),
      (''.bin.bin'', \<lparr>content = ''dd'', mtime = 2\<rparr>)]"

definition dotted_world :: "string option \<Rightarrow> world" where
  "dotted_world act =
     \<lparr>builds_dir = Some \<lparr>active_file = act, entries = dotted_builds\<rparr>,
      elsewhere = nothing_else,
      feather_bin = None, feather_mode = 0, probes = down, probes_made = 0,
      restarts = prompt, restarts_made = 0, slept = 0\<rparr>"

definition spaced_builds :: "(string \<times> regular_file) list" where
  "spaced_builds =
     [(''2024-01-01.bin'', \<lparr>content = ''one'', mtime = 1704067200\<rparr>),
      (''2024-02-01.bin'', \<lparr>content = ''two2'', mtime = 1706745600\<rparr>),
      (''2024-02-01 .bin'', \<lparr>content = ''three'', mtime = 1706745601\<rparr>)]"

definition spaced_world :: world where
  "spaced_world =
     \<lparr>builds_dir = Some \<lparr>active_file = None, entries = spaced_builds\<rparr>,
      elsewhere = nothing_else,
      feather_bin = None, feather_mode = 0, probes = down, probes_made = 0,
      restarts = prompt, restarts_made = 0, slept = 0\<rparr>"


section \<open>Properties\<close>

subsection \<open>Strings and file names\<close>

lemma rfind_append:
  "rfind c (xs @ ys) = (case rfind c ys of Some i \<Rightarrow> Some (length xs + i) | None \<Rightarrow> rfind c xs)"
  by (induction xs) (auto split: option.splits)

lemma endswith_iff: "endswith n q \<longleftrightarrow> (\<exists>p. n = p @ q)"
  unfolding endswith_def
proof
  assume a: "length q \<le> length n \<and> drop (length n - length q) n = q"
  then have "n = take (length n - length q) n @ q"
    by (metis append_take_drop_id)
  then show "\<exists>p. n = p @ q" ..
next
  assume "\<exists>p. n = p @ q"
  then show "length q \<le> length n \<and> drop (length n - length q) n = q" by auto
qed

lemma endswith_append: "endswith (p @ q) q"
  by (simp add: endswith_def)

lemma stem_bin: "stem (p @ ''.bin'') = (if p = [] then ''.bin'' else p)"
  by (simp add: stem_def rfind_append)

lemma stem_bin_nonempty: "p \<noteq> [] \<Longrightarrow> stem (p @ ''.bin'') = p"
  by (simp only: stem_bin if_False)

lemma append_neq_self: "p @ s \<noteq> s \<Longrightarrow> p \<noteq> []"
  by auto

lemma stem_inj_bin:
  assumes "endswith m ''.bin''" "endswith n ''.bin''" "stem m = stem n" "m \<noteq> ''.bin''" "n \<noteq> ''.bin''"
  shows "m = n"
proof -
  obtain p q where pq: "m = p @ ''.bin''" "n = q @ ''.bin''"
    using assms(1,2) unfolding endswith_iff by blast
  have p: "p \<noteq> []" using assms(4) unfolding pq by (rule append_neq_self)
  have q: "q \<noteq> []" using assms(5) unfolding pq by (rule append_neq_self)
  have "stem m = p" unfolding pq using p by (rule stem_bin_nonempty)
  moreover have "stem n = q" unfolding pq using q by (rule stem_bin_nonempty)
  ultimately have "p = q" using assms(3) by simp
  then show ?thesis unfolding pq by (rule arg_cong)
qed

lemma dropWhile_none: "(\<And>x. x \<in> set s \<Longrightarrow> \<not> P x) \<Longrightarrow> dropWhile P s = s"
  by (cases s) auto

lemma strip_where_id:
  assumes "\<And>x. x \<in> set s \<Longrightarrow> \<not> P x"
  shows "strip_where P s = s"
proof -
  have 1: "dropWhile P s = s" using assms by (rule dropWhile_none)
  have 2: "dropWhile P (rev s) = rev s" using assms by (intro dropWhile_none) simp
  show ?thesis by (simp add: strip_where_def 1 2)
qed

lemma strip_slash_valid: "valid_version v \<Longrightarrow> strip_slash v = v"
  unfolding strip_slash_def valid_version_def by (rule strip_where_id) auto

lemma startswith_append: "startswith (p @ v) p"
  by (simp add: startswith_def)

lemma universal_newlines_id: "CHR 0x0D \<notin> set s \<Longrightarrow> universal_newlines s = s"
  by (induction s rule: universal_newlines.induct) auto

lemma strip_where_ends:
  assumes "s \<noteq> []" and "\<not> P (hd s)" and "\<not> P (last s)"
  shows "strip_where P s = s"
proof -
  have 1: "dropWhile P s = s"
    using assms(1,2) by (cases s) auto
  have "rev s \<noteq> []" "\<not> P (hd (rev s))"
    using assms(1,3) by (simp_all add: hd_rev)
  then have 2: "dropWhile P (rev s) = rev s"
    by (cases "rev s") auto
  show ?thesis by (simp add: strip_where_def 1 2)
qed

lemma split_slash_no_slash: "CHR ''/'' \<notin> set s \<Longrightarrow> split_slash s = [s]"
  by (induction s) auto

lemma split_slash_nonempty: "split_slash s \<noteq> []"
  by (induction s) (auto split: list.splits)

lemma split_slash_append:
  "CHR ''/'' \<notin> set t \<Longrightarrow>
   split_slash (s @ t) = butlast (split_slash s) @ [last (split_slash s) @ t]"
proof (induction s)
  case Nil
  then show ?case by (simp add: split_slash_no_slash)
next
  case (Cons c s)
  then show ?case
    using split_slash_nonempty[of s] split_slash_nonempty[of "s @ t"]
    by (cases "split_slash s"; cases "split_slash (s @ t)") (auto split: list.splits)
qed

text \<open>A string that ends in \<open>.bin\<close> has a last component, which ends in \<open>.bin\<close>.\<close>

lemma parse_parts_bin: "parse_parts (v @ ''.bin'') \<noteq> []"
proof -
  let ?l = "last (split_slash v) @ ''.bin''"
  have "split_slash (v @ ''.bin'') = butlast (split_slash v) @ [?l]"
    by (rule split_slash_append) simp
  moreover have "4 \<le> length ?l" by simp
  then have "?l \<noteq> [] \<and> ?l \<noteq> ''.''" by auto
  ultimately have "?l \<in> set (parse_parts (v @ ''.bin''))"
    by (simp add: parse_parts_def)
  then show ?thesis by auto
qed

lemma parse_parts_valid:
  assumes "valid_version v"
  shows "parse_parts (v @ ''.bin'') = [v @ ''.bin'']"
proof -
  have "CHR ''/'' \<notin> set (v @ ''.bin'')"
    using assms by (simp add: valid_version_def)
  then have "split_slash (v @ ''.bin'') = [v @ ''.bin'']"
    by (rule split_slash_no_slash)
  moreover have "4 \<le> length (v @ ''.bin'')" by simp
  then have "v @ ''.bin'' \<noteq> [] \<and> v @ ''.bin'' \<noteq> ''.''" by auto
  ultimately show ?thesis by (simp add: parse_parts_def)
qed

lemma resolve_valid:
  assumes "valid_version v"
  shows "resolve (v @ ''.bin'') = Entry (v @ ''.bin'')"
proof -
  have 1: "hd (v @ ''.bin'') \<noteq> CHR ''/''"
    using assms by (cases v) (auto simp: valid_version_def)
  have "5 \<le> length (v @ ''.bin'')"
    using assms by (cases v) (auto simp: valid_version_def)
  then have 2: "v @ ''.bin'' \<noteq> ''..''" by auto
  show ?thesis
    unfolding resolve_def Let_def parse_parts_valid[OF assms] using 1 2 by simp
qed

lemma path_bytes_single:
  "path_bytes False [n] = 30 + fs_length n"
  by (simp add: path_bytes_def)

lemma fs_length_le: "length s \<le> fs_length s \<and> fs_length s \<le> 2 * length s"
  unfolding fs_length_def by (induction s) auto

subsection \<open>The listing\<close>

lemma sorted_reverse_desc: "sorted_wrt (\<ge>) (map k (sorted_reverse k xs))"
  by (simp add: sorted_reverse_def rev_map[symmetric] sorted_wrt_rev)

lemma mset_sorted_reverse: "mset (sorted_reverse k xs) = mset xs"
  by (simp add: sorted_reverse_def)

lemma versions_list_builds: "mset (map version (list_builds w)) = mset (store_versions w)"
  by (auto simp: list_builds_def store_versions_def Let_def o_def case_prod_unfold mset_sorted_reverse
        image_mset.compositionality split: option.splits)

lemma length_versions: "length (list_builds w) = length (store_versions w)"
  using versions_list_builds[of w] by (metis length_map mset_eq_length)

lemma set_versions: "set (map version (list_builds w)) = set (store_versions w)"
  using versions_list_builds[of w] by (rule mset_eq_setD)

lemma sorted_list_builds: "sorted_wrt (\<ge>) (map version (list_builds w))"
proof (cases "builds_dir w")
  case None
  then show ?thesis by (simp add: list_builds_def)
next
  case (Some d)
  have "map version (list_builds w) =
          map (\<lambda>(n, f). stem n) (sorted_reverse (\<lambda>(n, f). stem n) (glob_bin (entries d)))"
    by (simp add: list_builds_def Some Let_def case_prod_unfold o_def)
  then show ?thesis by (simp only: sorted_reverse_desc)
qed

lemma active_list_builds:
  "b \<in> set (list_builds w) \<Longrightarrow> active b = (version b = read_active '''' w)"
  by (auto simp: list_builds_def Let_def split: option.splits)

lemma filter_eq_distinct_le1: "distinct (map f xs) \<Longrightarrow> length (filter (\<lambda>x. f x = a) xs) \<le> Suc 0"
  by (induction xs) (auto simp: filter_empty_conv image_iff)

lemma distinct_versions_list_builds:
  assumes "distinct (store_versions w)"
  shows "distinct (map version (list_builds w))"
proof -
  have "mset (map version (list_builds w)) = mset (store_versions w)"
    by (rule versions_list_builds)
  then show ?thesis using assms mset_eq_imp_distinct_iff by blast
qed

lemma active_at_most_one:
  assumes "distinct (store_versions w)"
  shows "length (filter active (list_builds w)) \<le> 1"
proof -
  have d: "distinct (map version (list_builds w))"
    using assms by (rule distinct_versions_list_builds)
  have "filter active (list_builds w) = filter (\<lambda>b. version b = read_active '''' w) (list_builds w)"
    by (rule filter_cong) (simp_all add: active_list_builds)
  then show ?thesis using filter_eq_distinct_le1[OF d, of "read_active '''' w"] by simp
qed

lemma clearjunk_mem: "(n, f) \<in> set (AList.clearjunk es) \<Longrightarrow> (n, f) \<in> set es"
proof -
  assume a: "(n, f) \<in> set (AList.clearjunk es)"
  have "distinct (map fst (AList.clearjunk es))" by (rule distinct_clearjunk)
  then have "map_of (AList.clearjunk es) n = Some f" using a by (rule map_of_is_SomeI)
  then have "map_of es n = Some f" by (simp only: map_of_clearjunk)
  then show ?thesis by (rule map_of_SomeD)
qed

lemma clearjunk_first:
  "map_of es n = Some f \<Longrightarrow> (n, f) \<in> set (AList.clearjunk es)"
proof -
  assume "map_of es n = Some f"
  then have "map_of (AList.clearjunk es) n = Some f" by (simp only: map_of_clearjunk)
  then show ?thesis by (rule map_of_SomeD)
qed

lemma glob_bin_set:
  "(n, f) \<in> set (glob_bin es) \<longleftrightarrow> (n, f) \<in> set (AList.clearjunk es) \<and> endswith n ''.bin''"
  unfolding glob_bin_def by auto

lemma fst_in_image: "(m, f) \<in> set es \<Longrightarrow> m \<in> fst ` set es"
  by force

lemma glob_bin_name:
  "(n, f) \<in> set (glob_bin es) \<Longrightarrow> n \<in> fst ` set es \<and> endswith n ''.bin''"
  unfolding glob_bin_set using clearjunk_mem fst_in_image by fast

lemma distinct_fst_glob: "distinct (map fst (glob_bin es))"
  unfolding glob_bin_def by (rule distinct_map_filter) (rule distinct_clearjunk)

lemma store_versions_Some:
  "builds_dir w = Some d \<Longrightarrow> store_versions w = map stem (map fst (glob_bin (entries d)))"
  by (simp add: store_versions_def case_prod_unfold o_def)

text \<open>
  A leading dot does not start a suffix, so the file \<open>.bin\<close> has the version \<open>.bin\<close>, as
  the file \<open>.bin.bin\<close> has. No other two names that end in \<open>.bin\<close> share a version.
\<close>

lemma stem_collision: "stem ''.bin'' = ''.bin'' \<and> stem ''.bin.bin'' = ''.bin''"
  using stem_bin[of "[]"] stem_bin[of "''.bin''"] by simp

lemma stem_clash_bin:
  assumes "endswith m ''.bin''" "endswith n ''.bin''" "stem m = stem n" "m \<noteq> n"
  shows "(m = ''.bin'' \<and> n = ''.bin.bin'') \<or> (m = ''.bin.bin'' \<and> n = ''.bin'')"
proof -
  obtain p q where pq: "m = p @ ''.bin''" "n = q @ ''.bin''"
    using assms(1,2) unfolding endswith_iff by blast
  have sm: "stem m = (if p = [] then ''.bin'' else p)" unfolding pq by (rule stem_bin)
  have sn: "stem n = (if q = [] then ''.bin'' else q)" unfolding pq by (rule stem_bin)
  show ?thesis
  proof (cases "p = []")
    case True
    then have q: "q \<noteq> []" using assms(4) pq by auto
    then have "q = ''.bin''" using assms(3) sm sn True by simp
    then show ?thesis using True pq by simp
  next
    case False
    show ?thesis
    proof (cases "q = []")
      case True
      then have "p = ''.bin''" using assms(3) sm sn False by simp
      then show ?thesis using True pq by simp
    next
      case q: False
      then have "p = q" using assms(3) sm sn False by simp
      then show ?thesis using assms(4) pq by simp
    qed
  qed
qed

text \<open>
  Versions are unique unless the store holds both \<open>.bin\<close> and \<open>.bin.bin\<close>.
\<close>

lemma distinct_versions_no_clash:
  assumes "no_stem_clash w"
  shows "distinct (store_versions w)"
proof (cases "builds_dir w")
  case None
  then show ?thesis by (simp add: store_versions_def)
next
  case (Some d)
  let ?ns = "map fst (glob_bin (entries d))"
  have c: "\<not> (''.bin'' \<in> fst ` set (entries d) \<and> ''.bin.bin'' \<in> fst ` set (entries d))"
    using assms Some by (simp add: no_stem_clash_def)
  have 1: "distinct ?ns"
    by (rule distinct_fst_glob)
  have 2: "inj_on stem (set ?ns)"
  proof (rule inj_onI)
    fix m n assume m: "m \<in> set ?ns" and n: "n \<in> set ?ns" and e: "stem m = stem n"
    from m obtain f where "(m, f) \<in> set (glob_bin (entries d))" by auto
    then have m': "m \<in> fst ` set (entries d)" "endswith m ''.bin''"
      using glob_bin_name by blast+
    from n obtain g where "(n, g) \<in> set (glob_bin (entries d))" by auto
    then have n': "n \<in> fst ` set (entries d)" "endswith n ''.bin''"
      using glob_bin_name by blast+
    show "m = n"
    proof (rule ccontr)
      assume "m \<noteq> n"
      from stem_clash_bin[OF m'(2) n'(2) e this] m'(1) n'(1) c show False by blast
    qed
  qed
  have "distinct (map stem ?ns)"
    using 1 2 by (simp only: distinct_map)
  then show ?thesis by (simp only: store_versions_Some[OF Some])
qed

lemma read_active_cong: "builds_dir w' = builds_dir w \<Longrightarrow> read_active dflt w' = read_active dflt w"
  by (simp add: read_active_def)

lemma list_builds_cong: "builds_dir w' = builds_dir w \<Longrightarrow> list_builds w' = list_builds w"
  by (simp add: list_builds_def read_active_def cong: option.case_cong)

lemma length_list_builds:
  "builds_dir w = Some d \<Longrightarrow> length (list_builds w) = length (glob_bin (entries d))"
  by (simp add: list_builds_def Let_def sorted_reverse_def)

lemma read_active_unset:
  "builds_dir w = Some d \<Longrightarrow> active_file d = None \<Longrightarrow> read_active dflt w = dflt"
  by (simp add: read_active_def)

subsection \<open>Looking a version up\<close>

text \<open>\<open>(BUILDS_DIR / f"{v}.bin").exists()\<close> for a version without a path separator.\<close>

lemma lookup_version:
  assumes "valid_version v"
  shows "lookup w (v @ ''.bin'') =
     (if CHR 0x00 \<in> set v then Inr None
      else if PATH_MAX \<le> 30 + fs_length (v @ ''.bin'') then Inl (OSError 36)
      else (case builds_dir w of
              None \<Rightarrow> Inr None
            | Some d \<Rightarrow>
                if NAME_MAX < fs_length (v @ ''.bin'') then Inl (OSError 36)
                else Inr (map_of (entries d) (v @ ''.bin''))))"
  by (simp add: lookup_def resolve_valid[OF assms] parse_parts_valid[OF assms] path_bytes_single)

lemma lookup_found:
  assumes "valid_version v" and "lookup w (v @ ''.bin'') = Inr (Some f)"
  shows "\<exists>d. builds_dir w = Some d \<and> map_of (entries d) (v @ ''.bin'') = Some f
             \<and> CHR 0x00 \<notin> set v \<and> fs_length (v @ ''.bin'') \<le> NAME_MAX"
  using assms(2) unfolding lookup_version[OF assms(1)]
  by (auto split: if_splits option.splits)



subsection \<open>Probing and polling\<close>

lemma snapshot_simps [simp]:
  "snapshot Refused = PNone" "snapshot Timed_out = PNone"
  "snapshot (Response c Unparseable) = PNone"
  "snapshot (Response c (Parsed v)) = (if 200 \<le> c \<and> c < 300 then v else PNone)"
  by (simp_all add: snapshot_def)

lemma get_health_snapshot:
  "get_health w = (Inr (snapshot (probes w (probes_made w))), w\<lparr>probes_made := Suc (probes_made w)\<rparr>)"
  by (simp add: get_health_def snapshot_def Let_def split: sum.splits)

lemma poll_Suc:
  "poll (Suc n) w =
     (if truthy (snapshot (probes w (probes_made w))) then (Inr (True, ''OK''), tick w)
      else poll n (tick w))"
  by (simp add: get_health_snapshot tick_def sleep_def)

declare poll.simps(2) [simp del]

lemma tick_fields [simp]:
  "probes (tick w) = probes w" "probes_made (tick w) = Suc (probes_made w)"
  "slept (tick w) = Suc (slept w)" "builds_dir (tick w) = builds_dir w"
  "feather_bin (tick w) = feather_bin w" "feather_mode (tick w) = feather_mode w"
  by (simp_all add: tick_def sleep_def)

lemma poll_builds_dir: "builds_dir (snd (poll n w)) = builds_dir w"
  by (induction n arbitrary: w) (simp_all add: poll_Suc)

lemma poll_never_False: "fst (poll n w) \<noteq> Inr (False, m)"
  by (induction n arbitrary: w) (simp_all add: poll_Suc)


lemma poll_exhausted:
  "(\<And>k. k < n \<Longrightarrow> \<not> truthy (snapshot (probes w (probes_made w + k)))) \<Longrightarrow>
   fst (poll n w) = Inr (True, ''Restarted but health check not yet passing'')
   \<and> slept (snd (poll n w)) = slept w + n
   \<and> probes_made (snd (poll n w)) = probes_made w + n"
proof (induction n arbitrary: w)
  case 0
  show ?case by simp
next
  case (Suc n)
  have 0: "\<not> truthy (snapshot (probes w (probes_made w)))"
    using Suc.prems[of 0] by simp
  have "\<And>k. k < n \<Longrightarrow> \<not> truthy (snapshot (probes (tick w) (probes_made (tick w) + k)))"
    using Suc.prems[of "Suc _"] by simp
  from Suc.IH[OF this] 0 show ?case
    by (simp only: poll_Suc if_False tick_fields) simp
qed

lemma poll_first:
  "i < n \<Longrightarrow> (\<And>k. k < i \<Longrightarrow> \<not> truthy (snapshot (probes w (probes_made w + k)))) \<Longrightarrow>
   truthy (snapshot (probes w (probes_made w + i))) \<Longrightarrow>
   fst (poll n w) = Inr (True, ''OK'')
   \<and> slept (snd (poll n w)) = slept w + Suc i
   \<and> probes_made (snd (poll n w)) = probes_made w + Suc i"
proof (induction n arbitrary: w i)
  case 0
  then show ?case by simp
next
  case (Suc n)
  show ?case
  proof (cases i)
    case 0
    with Suc.prems(3) show ?thesis by (simp add: poll_Suc)
  next
    case (Suc j)
    have 0: "\<not> truthy (snapshot (probes w (probes_made w)))"
      using Suc.prems(2)[of 0] Suc by simp
    have a: "j < n" using Suc.prems(1) Suc by simp
    have b: "\<And>k. k < j \<Longrightarrow> \<not> truthy (snapshot (probes (tick w) (probes_made (tick w) + k)))"
      using Suc.prems(2)[of "Suc _"] Suc by simp
    have c: "truthy (snapshot (probes (tick w) (probes_made (tick w) + j)))"
      using Suc.prems(3) Suc by simp
    from Suc.IH[OF a b c] 0 Suc show ?thesis
      by (simp only: poll_Suc if_False tick_fields) simp
  qed
qed

subsection \<open>Promotion\<close>

lemma restart_builds_dir: "builds_dir (snd (restart w)) = builds_dir w"
  by (simp add: restart_def Let_def split: run_outcome.splits)

lemma restart_probes:
  "probes (snd (restart w)) = probes w" "probes_made (snd (restart w)) = probes_made w"
  "slept (snd (restart w)) = slept w"
  by (simp_all add: restart_def Let_def split: run_outcome.splits)

lemma restart_Completed:
  "restarts w (restarts_made w) = Completed rc \<Longrightarrow>
   restart w = (Inr rc, w\<lparr>restarts_made := Suc (restarts_made w)\<rparr>)"
  by (simp add: restart_def Let_def)

lemma restart_Expired:
  "restarts w (restarts_made w) = Expired \<Longrightarrow>
   restart w = (Inl TimeoutExpired, w\<lparr>restarts_made := Suc (restarts_made w)\<rparr>)"
  by (simp add: restart_def Let_def)


lemma staged_fields [simp]:
  "probes (staged v f w) = probes w" "probes_made (staged v f w) = probes_made w"
  "slept (staged v f w) = slept w" "restarts (staged v f w) = restarts w"
  "restarts_made (staged v f w) = restarts_made w"
  "builds_dir (staged v f w) = map_option (\<lambda>d. d\<lparr>active_file := Some v\<rparr>) (builds_dir w)"
  by (simp_all add: staged_def chmod_def copy2_def)

lemma write_active_staged:
  "builds_dir w = Some d \<Longrightarrow> write_active v (chmod 493 (copy2 f w)) = Inr (staged v f w)"
  by (simp add: write_active_def staged_def chmod_def copy2_def)



lemma promote_found:
  "lookup w (v @ ''.bin'') = Inr (Some f) \<Longrightarrow> builds_dir w = Some d \<Longrightarrow>
   promote_version w v =
     (case restart (staged v f w) of (Inl e, w') \<Rightarrow> (Inl e, w') | (Inr rc, w') \<Rightarrow> poll 15 w')"
  by (simp add: promote_version_def write_active_staged Let_def)

lemma promote_found_Completed:
  assumes "lookup w (v @ ''.bin'') = Inr (Some f)" "builds_dir w = Some d"
    "restarts w (restarts_made w) = Completed rc"
  shows "promote_version w v = poll 15 ((staged v f w)\<lparr>restarts_made := Suc (restarts_made w)\<rparr>)"
proof -
  have "restarts (staged v f w) (restarts_made (staged v f w)) = Completed rc"
    using assms(3) by simp
  from restart_Completed[OF this] show ?thesis
    by (simp add: promote_found[OF assms(1,2)])
qed

lemma promote_found_Expired:
  assumes "lookup w (v @ ''.bin'') = Inr (Some f)" "builds_dir w = Some d"
    "restarts w (restarts_made w) = Expired"
  shows "fst (promote_version w v) = Inl TimeoutExpired"
proof -
  have "restarts (staged v f w) (restarts_made (staged v f w)) = Expired"
    using assms(3) by simp
  from restart_Expired[OF this] show ?thesis
    by (simp add: promote_found[OF assms(1,2)])
qed



lemma promote_builds_dir:
  assumes "lookup w (v @ ''.bin'') = Inr (Some f)" "builds_dir w = Some d"
  shows "builds_dir (snd (promote_version w v)) = Some (d\<lparr>active_file := Some v\<rparr>)"
proof -
  have "builds_dir (snd (promote_version w v)) = builds_dir (snd (restart (staged v f w)))"
    by (simp add: promote_found[OF assms] poll_builds_dir split: prod.splits sum.splits)
  then show ?thesis by (simp add: restart_builds_dir assms(2))
qed

text \<open>
  Steps 2 and 3 of a promotion survive the restart and the poll: the live binary is
  the promoted file with mode \<open>0o755\<close>.
\<close>

lemma poll_feather:
  "feather_bin (snd (poll n w)) = feather_bin w \<and> feather_mode (snd (poll n w)) = feather_mode w"
  by (induction n arbitrary: w) (simp_all add: poll_Suc)

lemma restart_feather:
  "feather_bin (snd (restart w)) = feather_bin w \<and> feather_mode (snd (restart w)) = feather_mode w"
  by (simp add: restart_def Let_def split: run_outcome.splits)

lemma staged_feather:
  "feather_bin (staged v f w) = Some f \<and> feather_mode (staged v f w) = 493"
  by (simp add: staged_def chmod_def copy2_def)

lemma promote_stages_binary:
  assumes "lookup w (v @ ''.bin'') = Inr (Some f)" "builds_dir w = Some d"
  shows "feather_bin (snd (promote_version w v)) = Some f
       \<and> feather_mode (snd (promote_version w v)) = 493"
proof -
  have "feather_bin (snd (promote_version w v)) = feather_bin (snd (restart (staged v f w)))
        \<and> feather_mode (snd (promote_version w v)) = feather_mode (snd (restart (staged v f w)))"
    by (simp add: promote_found[OF assms] poll_feather split: prod.splits sum.splits)
  then show ?thesis by (simp add: restart_feather staged_feather)
qed

subsection \<open>The handlers\<close>

lemma do_GET_status:
  "do_GET w ''/admin/api/status'' =
     (case uptime_secs (snapshot (probes w (probes_made w))) of
        Inl e \<Rightarrow> (Inl e, w\<lparr>probes_made := Suc (probes_made w)\<rparr>)
      | Inr up \<Rightarrow>
          (Inr (200, PDict [(''active_version'', PStr (read_active ''unknown'' w)),
                            (''healthy'', PBool (snapshot (probes w (probes_made w)) \<noteq> PNone)),
                            (''uptime_secs'', up),
                            (''build_count'', PInt (int (length (list_builds w))))]),
           w\<lparr>probes_made := Suc (probes_made w)\<rparr>))"
proof -
  let ?w' = "w\<lparr>probes_made := Suc (probes_made w)\<rparr>"
  have a: "read_active ''unknown'' ?w' = read_active ''unknown'' w"
    by (rule read_active_cong) simp
  have b: "list_builds ?w' = list_builds w"
    by (rule list_builds_cong) simp
  show ?thesis
    by (simp add: do_GET_def get_health_snapshot Let_def a b cong: sum.case_cong)
qed

text \<open>
  \<open>DELETE /admin/api/builds/u\<close> for a version string \<open>u\<close> that is not empty and neither
  starts nor ends with a slash.
\<close>

lemma do_DELETE_stripped:
  assumes "u \<noteq> []" and "strip_slash u = u"
  shows "do_DELETE w (''/admin/api/builds/'' @ u) =
     (if u = read_active '''' w
      then (Inr (409, PDict [(''error'', PStr ''Cannot delete the active build'')]), w)
      else (case lookup w (u @ ''.bin'') of
              Inl e \<Rightarrow> (Inl e, w)
            | Inr None \<Rightarrow> (Inr (404, PDict [(''error'', PStr (''Build '' @ u @ '' not found''))]), w)
            | Inr (Some f) \<Rightarrow> (Inr (200, PDict [(''ok'', PBool True), (''deleted'', PStr u)]),
                               unlink (u @ ''.bin'') w)))"
proof -
  have 1: "startswith (''/admin/api/builds/'' @ u) ''/admin/api/builds/''"
    by (rule startswith_append)
  have 2: "strip_slash (drop (length ''/admin/api/builds/'') (''/admin/api/builds/'' @ u)) = u"
    using assms(2) by simp
  show ?thesis
    unfolding do_DELETE_def Let_def by (simp only: 1 2 assms(1) if_True if_False)
qed

lemma do_DELETE_version:
  assumes "valid_version v"
  shows "do_DELETE w (''/admin/api/builds/'' @ v) =
     (if v = read_active '''' w
      then (Inr (409, PDict [(''error'', PStr ''Cannot delete the active build'')]), w)
      else (case lookup w (v @ ''.bin'') of
              Inl e \<Rightarrow> (Inl e, w)
            | Inr None \<Rightarrow> (Inr (404, PDict [(''error'', PStr (''Build '' @ v @ '' not found''))]), w)
            | Inr (Some f) \<Rightarrow> (Inr (200, PDict [(''ok'', PBool True), (''deleted'', PStr v)]),
                               unlink (v @ ''.bin'') w)))"
proof -
  have "v \<noteq> []" using assms by (simp add: valid_version_def)
  then show ?thesis using strip_slash_valid[OF assms] by (rule do_DELETE_stripped)
qed

lemma unlink_valid:
  assumes "valid_version v" and "builds_dir w = Some d"
  shows "builds_dir (unlink (v @ ''.bin'') w) =
           Some (d\<lparr>entries := filter (\<lambda>(m, g). m \<noteq> v @ ''.bin'') (entries d)\<rparr>)"
  by (simp add: unlink_def resolve_valid[OF assms(1)] assms(2))

lemma map_of_removed: "map_of (filter (\<lambda>(m, g). m \<noteq> n) es) n = None"
proof -
  have "n \<notin> fst ` set (filter (\<lambda>(m, g). m \<noteq> n) es)" by auto
  then show ?thesis by (simp add: map_of_eq_None_iff)
qed

lemma lookup_unlink:
  assumes "valid_version v" and "lookup w (v @ ''.bin'') = Inr (Some f)"
  shows "lookup (unlink (v @ ''.bin'') w) (v @ ''.bin'') = Inr None"
proof -
  obtain d where d: "builds_dir w = Some d" "CHR 0x00 \<notin> set v"
      "fs_length (v @ ''.bin'') \<le> NAME_MAX"
    using lookup_found[OF assms] by blast
  have "\<not> PATH_MAX \<le> 30 + fs_length (v @ ''.bin'')"
    using d(3) by (simp add: NAME_MAX_def PATH_MAX_def)
  then show ?thesis
    unfolding lookup_version[OF assms(1)] unlink_valid[OF assms(1) d(1)]
    using d(2,3) by (simp add: map_of_removed)
qed

lemma version_gone:
  assumes v: "valid_version v" and l: "lookup w (v @ ''.bin'') = Inr (Some f)"
    and c: "v = ''.bin'' \<Longrightarrow> no_stem_clash w"
  shows "v \<notin> set (store_versions (unlink (v @ ''.bin'') w))"
proof
  assume mem: "v \<in> set (store_versions (unlink (v @ ''.bin'') w))"
  obtain d where d: "builds_dir w = Some d" "map_of (entries d) (v @ ''.bin'') = Some f"
    using lookup_found[OF v l] by blast
  have ne: "v \<noteq> []" using v by (simp add: valid_version_def)
  have here: "v @ ''.bin'' \<in> fst ` set (entries d)"
    using map_of_SomeD[OF d(2)] by (rule fst_in_image)
  let ?es = "filter (\<lambda>(m, g). m \<noteq> v @ ''.bin'') (entries d)"
  have "store_versions (unlink (v @ ''.bin'') w) = map stem (map fst (glob_bin ?es))"
    using store_versions_Some[OF unlink_valid[OF v d(1)]] by simp
  with mem obtain m g where m: "(m, g) \<in> set (glob_bin ?es)" and sm: "stem m = v"
    by auto
  from glob_bin_name[OF m] have m': "m \<in> fst ` set (entries d)" "m \<noteq> v @ ''.bin''"
      "endswith m ''.bin''"
    by auto
  have "stem (v @ ''.bin'') = v" using ne by (rule stem_bin_nonempty)
  then have e: "stem m = stem (v @ ''.bin'')" using sm by simp
  from stem_clash_bin[OF m'(3) endswith_append e m'(2)]
  have "m = ''.bin'' \<and> v @ ''.bin'' = ''.bin'' @ ''.bin''"
    using ne by auto
  then have "m = ''.bin''" "v = ''.bin''" by simp_all
  then have "''.bin'' \<in> fst ` set (entries d)" "''.bin.bin'' \<in> fst ` set (entries d)"
      "no_stem_clash w"
    using m'(1) here c by simp_all
  then show False by (simp add: no_stem_clash_def d(1))
qed

subsection \<open>Facts about the example worlds\<close>

lemma example_fields [simp]:
  "builds_dir (example_world act ps rs) = Some \<lparr>active_file = act, entries = two_builds\<rparr>"
  "probes (example_world act ps rs) = ps" "probes_made (example_world act ps rs) = 0"
  "restarts (example_world act ps rs) = rs" "restarts_made (example_world act ps rs) = 0"
  "slept (example_world act ps rs) = 0"
  by (simp_all add: example_world_def)

lemma glob_two_builds: "glob_bin two_builds = two_builds"
  by (simp add: glob_bin_def two_builds_def endswith_def)

lemma stems_two_builds: "map stem (map fst two_builds) = [''2024-01-01'', ''2024-02-01'']"
  using stem_bin[of "''2024-01-01''"] stem_bin[of "''2024-02-01''"]
  by (simp add: two_builds_def)

lemma store_versions_example:
  "store_versions (example_world act ps rs) = [''2024-01-01'', ''2024-02-01'']"
  by (simp add: store_versions_Some glob_two_builds stems_two_builds del: map_map)

lemma valid_date: "valid_version ''2024-02-01''" "valid_version ''2023-12-01''"
  by (simp_all add: valid_version_def)

lemma lookup_example_app:
  "lookup (example_world act ps rs) (''2024-02-01'' @ ''.bin'') =
     Inr (Some \<lparr>content = ''two2'', mtime = 1706745600\<rparr>)"
  "lookup (example_world act ps rs) (''2023-12-01'' @ ''.bin'') = Inr None"
  unfolding lookup_version[OF valid_date(1)] lookup_version[OF valid_date(2)]
  by (simp_all add: fs_length_def NAME_MAX_def PATH_MAX_def two_builds_def)

lemma lookup_example:
  "lookup (example_world act ps rs) ''2024-02-01.bin'' =
     Inr (Some \<lparr>content = ''two2'', mtime = 1706745600\<rparr>)"
  "lookup (example_world act ps rs) ''2023-12-01.bin'' = Inr None"
  using lookup_example_app[of act ps rs] by simp_all

lemma example_no_clash: "no_stem_clash (example_world act ps rs)"
  by (simp add: no_stem_clash_def two_builds_def)

lemma strip_date: "strip (universal_newlines ''2024-02-01'') = ''2024-02-01''"
  by (simp add: strip_def strip_where_def isspace_def)

lemma strip_date_nl: "strip (universal_newlines ''2024-02-01\<newline>'') = ''2024-02-01''"
  by (simp add: strip_def strip_where_def isspace_def)

lemma strip_date2: "strip (universal_newlines ''2023-12-01'') = ''2023-12-01''"
  by (simp add: strip_def strip_where_def isspace_def)

lemma read_active_example: "read_active '''' (example_world (Some ''2024-02-01\<newline>'') ps rs) = ''2024-02-01''"
  by (simp add: read_active_def strip_def strip_where_def isspace_def)

lemma read_active_dangling: "read_active '''' (example_world (Some ''2023-12-01'') ps rs) = ''2023-12-01''"
  by (simp add: read_active_def strip_def strip_where_def isspace_def)

section \<open>The claims\<close>

subsection \<open>C1: status with no active pointer\<close>

text \<open>
  C1, as amended. With the builds directory present, no \<open>active\<close> file and the health
  probe unreachable, \<open>GET /admin/api/status\<close> answers 200 with \<open>active_version\<close>
  \<open>"unknown"\<close>, \<open>healthy\<close> false, \<open>uptime_secs\<close> 0 and \<open>build_count\<close> the number
  of \<open>*.bin\<close> entries. The handler's default for a missing pointer is \<open>"unknown"\<close>,
  where \<open>list_builds\<close> and \<open>do_DELETE\<close> use the empty string.
\<close>

theorem status_unset_pointer:
  assumes "builds_dir w = Some d" and "active_file d = None"
    and "snapshot (probes w (probes_made w)) = PNone"
  shows "fst (do_GET w ''/admin/api/status'') =
           Inr (200, PDict [(''active_version'', PStr ''unknown''),
                            (''healthy'', PBool False),
                            (''uptime_secs'', PInt 0),
                            (''build_count'', PInt (int (length (glob_bin (entries d)))))])"
  by (simp add: do_GET_status assms(3) uptime_secs_def read_active_unset[OF assms(1,2)]
        length_list_builds[OF assms(1)])

text \<open>
  The scenario of the specification: two builds, no pointer, service down.
\<close>

theorem status_unset_pointer_witness:
  "fst (do_GET (example_world None down prompt) ''/admin/api/status'') =
     Inr (200, PDict [(''active_version'', PStr ''unknown''),
                      (''healthy'', PBool False),
                      (''uptime_secs'', PInt 0),
                      (''build_count'', PInt 2)])"
  using status_unset_pointer[of "example_world None down prompt"
      "\<lparr>active_file = None, entries = two_builds\<rparr>"]
  by (simp add: down_def glob_two_builds) (simp add: two_builds_def)

text \<open>
  C1 as stated fails there: the answer is not the one with \<open>active_version\<close> \<open>""\<close>.
\<close>

theorem status_unset_pointer_counterexample:
  "map_option active_file (builds_dir (example_world None down prompt)) = Some None
   \<and> length (list_builds (example_world None down prompt)) = 2
   \<and> fst (do_GET (example_world None down prompt) ''/admin/api/status'') \<noteq>
       Inr (200, PDict [(''active_version'', PStr ''''),
                        (''healthy'', PBool False),
                        (''uptime_secs'', PInt 0),
                        (''build_count'', PInt 2)])"
  by (simp add: do_GET_status down_def uptime_secs_def read_active_def length_list_builds
        glob_two_builds) (simp add: two_builds_def)

subsection \<open>C2: the outcome of the health poll\<close>

text \<open>
  C2, as amended. For an existing version, when the restart command returns (with
  any exit status): if none of the 15 attempts, one second apart, yields a truthy
  body, in particular if the probe is unreachable every time, \<open>promote_version\<close>
  returns \<open>True\<close> with the degraded message after 15 seconds of sleep; and if
  attempt \<open>i + 1\<close> is the first to yield a truthy body, it returns \<open>(True, "OK")\<close>
  right after that attempt.
\<close>

theorem promote_poll_outcome:
  assumes "valid_version v" and "lookup w (v @ ''.bin'') = Inr (Some f)"
    and "restarts w (restarts_made w) = Completed rc"
  shows "((\<forall>k<15. \<not> truthy (snapshot (probes w (probes_made w + k)))) \<longrightarrow>
            fst (promote_version w v) = Inr (True, ''Restarted but health check not yet passing'')
            \<and> slept (snd (promote_version w v)) = slept w + 15
            \<and> probes_made (snd (promote_version w v)) = probes_made w + 15)
       \<and> (\<forall>i<15. (\<forall>k<i. \<not> truthy (snapshot (probes w (probes_made w + k))))
                  \<and> truthy (snapshot (probes w (probes_made w + i))) \<longrightarrow>
            fst (promote_version w v) = Inr (True, ''OK'')
            \<and> slept (snd (promote_version w v)) = slept w + Suc i
            \<and> probes_made (snd (promote_version w v)) = probes_made w + Suc i)"
proof -
  let ?w = "(staged v f w)\<lparr>restarts_made := Suc (restarts_made w)\<rparr>"
  obtain d where d: "builds_dir w = Some d"
    using lookup_found[OF assms(1,2)] by blast
  have p: "promote_version w v = poll 15 ?w"
    using assms(2) d assms(3) by (rule promote_found_Completed)
  have f: "probes ?w = probes w" "probes_made ?w = probes_made w" "slept ?w = slept w"
    by simp_all
  show ?thesis
  proof (intro conjI impI allI)
    assume a: "\<forall>k<15. \<not> truthy (snapshot (probes w (probes_made w + k)))"
    have "\<And>k. k < 15 \<Longrightarrow> \<not> truthy (snapshot (probes ?w (probes_made ?w + k)))"
      using a by (simp only: f) blast
    from poll_exhausted[OF this]
    show "fst (promote_version w v) = Inr (True, ''Restarted but health check not yet passing'')"
      and "slept (snd (promote_version w v)) = slept w + 15"
      and "probes_made (snd (promote_version w v)) = probes_made w + 15"
      by (simp_all only: p f)
  next
    fix i :: nat
    assume i: "i < 15"
      and b: "(\<forall>k<i. \<not> truthy (snapshot (probes w (probes_made w + k))))
              \<and> truthy (snapshot (probes w (probes_made w + i)))"
    have 1: "\<And>k. k < i \<Longrightarrow> \<not> truthy (snapshot (probes ?w (probes_made ?w + k)))"
      using b by (simp only: f) blast
    have 2: "truthy (snapshot (probes ?w (probes_made ?w + i)))"
      using b by (simp only: f)
    from poll_first[OF i 1 2]
    show "fst (promote_version w v) = Inr (True, ''OK'')"
      and "slept (snd (promote_version w v)) = slept w + Suc i"
      and "probes_made (snd (promote_version w v)) = probes_made w + Suc i"
      by (simp_all only: p f)
  qed
qed

text \<open>
  Service down for the whole poll, and service up at the third attempt.
\<close>

theorem promote_poll_outcome_witness:
  "fst (promote_version (example_world None down prompt) ''2024-02-01'') =
     Inr (True, ''Restarted but health check not yet passing'')
   \<and> slept (snd (promote_version (example_world None down prompt) ''2024-02-01'')) = 15
   \<and> fst (promote_version (example_world None (up_after 2) prompt) ''2024-02-01'') = Inr (True, ''OK'')
   \<and> slept (snd (promote_version (example_world None (up_after 2) prompt) ''2024-02-01'')) = 3"
proof -
  have a: "\<forall>k<15. \<not> truthy (snapshot (probes (example_world None down prompt)
             (probes_made (example_world None down prompt) + k)))"
    by (simp add: down_def)
  have b: "(\<forall>k<2. \<not> truthy (snapshot (probes (example_world None (up_after 2) prompt)
              (probes_made (example_world None (up_after 2) prompt) + k))))
           \<and> truthy (snapshot (probes (example_world None (up_after 2) prompt)
              (probes_made (example_world None (up_after 2) prompt) + 2)))"
    by (simp add: up_after_def)
  have r1: "restarts (example_world None down prompt)
              (restarts_made (example_world None down prompt)) = Completed 0"
    by (simp add: prompt_def)
  have r2: "restarts (example_world None (up_after 2) prompt)
              (restarts_made (example_world None (up_after 2) prompt)) = Completed 0"
    by (simp add: prompt_def)
  note A = promote_poll_outcome[OF valid_date(1) lookup_example_app(1) r1]
  note B = promote_poll_outcome[OF valid_date(1) lookup_example_app(1) r2]
  from A a have 1:
    "fst (promote_version (example_world None down prompt) ''2024-02-01'') =
       Inr (True, ''Restarted but health check not yet passing'')
     \<and> slept (snd (promote_version (example_world None down prompt) ''2024-02-01'')) =
       slept (example_world None down prompt) + 15"
    by blast
  from B have "2 < (15::nat) \<longrightarrow>
      (\<forall>k<2. \<not> truthy (snapshot (probes (example_world None (up_after 2) prompt)
              (probes_made (example_world None (up_after 2) prompt) + k))))
           \<and> truthy (snapshot (probes (example_world None (up_after 2) prompt)
              (probes_made (example_world None (up_after 2) prompt) + 2))) \<longrightarrow>
      fst (promote_version (example_world None (up_after 2) prompt) ''2024-02-01'') = Inr (True, ''OK'')
      \<and> slept (snd (promote_version (example_world None (up_after 2) prompt) ''2024-02-01'')) =
        slept (example_world None (up_after 2) prompt) + Suc 2
      \<and> probes_made (snd (promote_version (example_world None (up_after 2) prompt) ''2024-02-01'')) =
        probes_made (example_world None (up_after 2) prompt) + Suc 2"
    by blast
  with b have 2:
    "fst (promote_version (example_world None (up_after 2) prompt) ''2024-02-01'') = Inr (True, ''OK'')
     \<and> slept (snd (promote_version (example_world None (up_after 2) prompt) ''2024-02-01'')) =
        slept (example_world None (up_after 2) prompt) + Suc 2"
    by simp
  from 1 2 show ?thesis by simp
qed

text \<open>
  C2 as stated fails in two ways. When the restart command runs into its timeout,
  \<open>subprocess.run\<close> raises \<open>TimeoutExpired\<close> and nothing is returned although the
  version exists and the probe is never reachable. When the endpoint answers every
  attempt with \<open>{}\<close>, a parsed body that \<open>GET /admin/api/status\<close> reports as healthy, the
  poll does not stop and the degraded message is returned instead of \<open>"OK"\<close>.
\<close>

theorem promote_poll_outcome_counterexample:
  "lookup (example_world None down hanging) ''2024-02-01.bin'' \<noteq> Inr None
   \<and> probes (example_world None down hanging) = down
   \<and> snapshot (down 0) = PNone
   \<and> fst (promote_version (example_world None down hanging) ''2024-02-01'') = Inl TimeoutExpired
   \<and> snapshot (answering (PDict []) 0) = PDict []
   \<and> fst (promote_version (example_world None (answering (PDict [])) prompt) ''2024-02-01'') =
       Inr (True, ''Restarted but health check not yet passing'')"
proof -
  have 1: "fst (promote_version (example_world None down hanging) ''2024-02-01'') = Inl TimeoutExpired"
    by (rule promote_found_Expired[OF lookup_example_app(1) example_fields(1)]) (simp add: hanging_def)
  let ?w = "example_world None (answering (PDict [])) prompt"
  let ?f = "\<lparr>content = ''two2'', mtime = 1706745600\<rparr>"
  let ?w' = "(staged ''2024-02-01'' ?f ?w)\<lparr>restarts_made := Suc (restarts_made ?w)\<rparr>"
  have p: "promote_version ?w ''2024-02-01'' = poll 15 ?w'"
    by (rule promote_found_Completed[OF lookup_example_app(1) example_fields(1)]) (simp add: prompt_def)
  have "\<And>k. k < 15 \<Longrightarrow> \<not> truthy (snapshot (probes ?w' (probes_made ?w' + k)))"
    by (simp add: answering_def)
  from poll_exhausted[OF this]
  have 2: "fst (promote_version ?w ''2024-02-01'') = Inr (True, ''Restarted but health check not yet passing'')"
    by (simp only: p)
  show ?thesis
    using 1 2 by (simp add: lookup_example down_def answering_def)
qed

subsection \<open>C3: the only failing outcome of a promotion\<close>




subsection \<open>C4: the pointer is committed before restart and verification\<close>

text \<open>
  C4, as amended. For an existing version, after \<open>promote_version\<close> the \<open>active\<close> file
  holds that version, whatever the restart command and the health probes do (they
  are fields of the world, not constrained here). Readers translate newlines and strip
  white space, so what they read is \<open>strip (universal_newlines v)\<close>; it is \<open>v\<close>, and the
  listing flags the builds of version \<open>v\<close>, when \<open>v\<close> has no carriage return and
  neither starts nor ends with white space.
\<close>

theorem promote_sets_active:
  assumes "valid_version v" and "lookup w (v @ ''.bin'') = Inr (Some f)"
  shows "map_option active_file (builds_dir (snd (promote_version w v))) = Some (Some v)
       \<and> read_active dflt (snd (promote_version w v)) = strip (universal_newlines v)
       \<and> (CHR 0x0D \<notin> set v \<and> \<not> isspace (hd v) \<and> \<not> isspace (last v) \<longrightarrow>
            read_active dflt (snd (promote_version w v)) = v
            \<and> (\<forall>b \<in> set (list_builds (snd (promote_version w v))). active b = (version b = v)))"
proof -
  obtain d where d: "builds_dir w = Some d"
    using lookup_found[OF assms] by blast
  have b: "builds_dir (snd (promote_version w v)) = Some (d\<lparr>active_file := Some v\<rparr>)"
    using assms(2) d by (rule promote_builds_dir)
  then have r: "read_active x (snd (promote_version w v)) = strip (universal_newlines v)" for x
    by (simp add: read_active_def)
  have ne: "v \<noteq> []" using assms(1) by (simp add: valid_version_def)
  have "strip (universal_newlines v) = v"
    if "CHR 0x0D \<notin> set v \<and> \<not> isspace (hd v) \<and> \<not> isspace (last v)"
    using that ne by (simp add: universal_newlines_id strip_def strip_where_ends)
  then show ?thesis
    using b r active_list_builds[of _ "snd (promote_version w v)"] by auto
qed

text \<open>
  The restart command hangs and the service is down: the pointer is written all the same.
\<close>

theorem promote_sets_active_witness:
  "map_option active_file
     (builds_dir (snd (promote_version (example_world (Some ''2024-01-01'') down hanging) ''2024-02-01''))) =
     Some (Some ''2024-02-01'')
   \<and> read_active '''' (snd (promote_version (example_world (Some ''2024-01-01'') down hanging) ''2024-02-01'')) =
     ''2024-02-01''
   \<and> fst (promote_version (example_world (Some ''2024-01-01'') down hanging) ''2024-02-01'') =
     Inl TimeoutExpired"
proof -
  let ?w = "example_world (Some ''2024-01-01'') down hanging"
  have e: "fst (promote_version ?w ''2024-02-01'') = Inl TimeoutExpired"
    by (rule promote_found_Expired[OF lookup_example_app(1) example_fields(1)]) (simp add: hanging_def)
  have c: "CHR 0x0D \<notin> set ''2024-02-01'' \<and> \<not> isspace (hd ''2024-02-01'')
           \<and> \<not> isspace (last ''2024-02-01'')"
    by (simp add: isspace_def)
  from promote_sets_active[OF valid_date(1) lookup_example_app(1), of "Some ''2024-01-01''" down hanging "''''"] c
  have "map_option active_file (builds_dir (snd (promote_version ?w ''2024-02-01''))) =
          Some (Some ''2024-02-01'')
        \<and> read_active '''' (snd (promote_version ?w ''2024-02-01'')) = ''2024-02-01''"
    by blast
  with e show ?thesis by simp
qed

text \<open>
  C4 as stated fails for a version that ends in a space. With the builds
  \<open>2024-02-01\<close> and \<open>2024-02-01 \<close> in the store, promoting the second leaves a pointer
  that reads as the first, and the listing flags the first.
\<close>

theorem promote_sets_active_counterexample:
  "valid_version ''2024-02-01 ''
   \<and> lookup spaced_world ''2024-02-01 .bin'' = Inr (Some \<lparr>content = ''three'', mtime = 1706745601\<rparr>)
   \<and> fst (promote_version spaced_world ''2024-02-01 '') = Inr (True, ''Restarted but health check not yet passing'')
   \<and> read_active '''' (snd (promote_version spaced_world ''2024-02-01 '')) = ''2024-02-01''
   \<and> map (\<lambda>b. (version b, active b)) (list_builds (snd (promote_version spaced_world ''2024-02-01 ''))) =
       [(''2024-02-01 '', False), (''2024-02-01'', True), (''2024-01-01'', False)]"
proof -
  let ?f = "\<lparr>content = ''three'', mtime = 1706745601\<rparr>"
  let ?d = "\<lparr>active_file = None, entries = spaced_builds\<rparr>"
  let ?w' = "spaced_world\<lparr>builds_dir := Some (?d\<lparr>active_file := Some ''2024-02-01 ''\<rparr>)\<rparr>"
  have v: "valid_version ''2024-02-01 ''"
    by (simp add: valid_version_def)
  have d: "builds_dir spaced_world = Some ?d"
    by (simp add: spaced_world_def)
  have l: "lookup spaced_world (''2024-02-01 '' @ ''.bin'') = Inr (Some ?f)"
    unfolding lookup_version[OF v]
    by (simp add: fs_length_def NAME_MAX_def PATH_MAX_def spaced_world_def spaced_builds_def)
  have b: "builds_dir (snd (promote_version spaced_world ''2024-02-01 '')) = builds_dir ?w'"
    using promote_builds_dir[OF l d] by simp
  have r: "restarts spaced_world (restarts_made spaced_world) = Completed 0"
    by (simp add: spaced_world_def prompt_def)
  let ?s = "(staged ''2024-02-01 '' ?f spaced_world)\<lparr>restarts_made := Suc (restarts_made spaced_world)\<rparr>"
  have "\<And>k. k < 15 \<Longrightarrow> \<not> truthy (snapshot (probes ?s (probes_made ?s + k)))"
    by (simp add: spaced_world_def down_def)
  from poll_exhausted[OF this]
  have 1: "fst (promote_version spaced_world ''2024-02-01 '') =
             Inr (True, ''Restarted but health check not yet passing'')"
    by (simp only: promote_found_Completed[OF l d r])
  have 2: "read_active '''' ?w' = ''2024-02-01''"
    by code_simp
  have 3: "map (\<lambda>b. (version b, active b)) (list_builds ?w') =
       [(''2024-02-01 '', False), (''2024-02-01'', True), (''2024-01-01'', False)]"
    by code_simp
  from v l 1 2 3 show ?thesis
    by (simp add: read_active_cong[OF b] list_builds_cong[OF b])
qed

subsection \<open>C5: the active build is not deleted\<close>

text \<open>
  A request that names the version exactly as the active pointer reads it is refused
  with 409 and leaves the world unchanged.
\<close>

lemma delete_pointer_refused:
  assumes "valid_version v" and "read_active '''' w = v"
  shows "do_DELETE w (''/admin/api/builds/'' @ v) =
           (Inr (409, PDict [(''error'', PStr ''Cannot delete the active build'')]), w)"
  unfolding do_DELETE_version[OF assms(1)] using assms(2) by simp

text \<open>
  C5. The guard compares strings, and a path has more than one spelling:
  \<open>DELETE /admin/api/builds/./2024-02-01\<close>, with the pointer at \<open>2024-02-01\<close>, passes the
  guard, resolves to the file \<open>2024-02-01.bin\<close> of the active build, removes it and
  answers 200. The claim that the build the pointer names is never removable does
  not hold of \<open>do_DELETE\<close>.
\<close>

theorem delete_active_other_spelling:
  "read_active '''' (example_world (Some ''2024-02-01'') down prompt) = ''2024-02-01''
   \<and> lookup (example_world (Some ''2024-02-01'') down prompt) ''2024-02-01.bin'' =
       Inr (Some \<lparr>content = ''two2'', mtime = 1706745600\<rparr>)
   \<and> fst (do_DELETE (example_world (Some ''2024-02-01'') down prompt) ''/admin/api/builds/./2024-02-01'') =
       Inr (200, PDict [(''ok'', PBool True), (''deleted'', PStr ''./2024-02-01'')])
   \<and> lookup (snd (do_DELETE (example_world (Some ''2024-02-01'') down prompt)
         ''/admin/api/builds/./2024-02-01'')) ''2024-02-01.bin'' = Inr None
   \<and> map version (list_builds (snd (do_DELETE (example_world (Some ''2024-02-01'') down prompt)
         ''/admin/api/builds/./2024-02-01''))) = [''2024-01-01'']"
proof -
  let ?w = "example_world (Some ''2024-02-01'') down prompt"
  let ?f = "\<lparr>content = ''two2'', mtime = 1706745600\<rparr>"
  have r: "read_active '''' ?w = ''2024-02-01''"
    by (simp add: read_active_def strip_def strip_where_def isspace_def)
  have s: "strip_slash ''./2024-02-01'' = ''./2024-02-01''"
    unfolding strip_slash_def by (rule strip_where_ends) simp_all
  have ne: "''./2024-02-01'' \<noteq> []"
    by simp
  have res: "resolve (''./2024-02-01'' @ ''.bin'') = Entry ''2024-02-01.bin''"
    by (simp add: resolve_def parse_parts_def)
  have pp: "parse_parts (''./2024-02-01'' @ ''.bin'') = [''2024-02-01.bin'']"
    by (simp add: parse_parts_def)
  have l: "lookup ?w (''./2024-02-01'' @ ''.bin'') = Inr (Some ?f)"
    unfolding lookup_def res pp path_bytes_single
    by (simp add: fs_length_def NAME_MAX_def PATH_MAX_def two_builds_def)
  have del: "do_DELETE ?w (''/admin/api/builds/'' @ ''./2024-02-01'') =
      (Inr (200, PDict [(''ok'', PBool True), (''deleted'', PStr ''./2024-02-01'')]),
       unlink (''./2024-02-01'' @ ''.bin'') ?w)"
    unfolding do_DELETE_stripped[OF ne s] r l by simp
  have u: "builds_dir (unlink (''./2024-02-01'' @ ''.bin'') ?w) =
      builds_dir (unlink (''2024-02-01'' @ ''.bin'') ?w)"
    unfolding unlink_def res resolve_valid[OF valid_date(1)] by simp
  have gone: "lookup (unlink (''2024-02-01'' @ ''.bin'') ?w) (''2024-02-01'' @ ''.bin'') = Inr None"
    using valid_date(1) lookup_example_app(1) by (rule lookup_unlink)
  have same: "lookup (unlink (''./2024-02-01'' @ ''.bin'') ?w) (''2024-02-01'' @ ''.bin'') =
      lookup (unlink (''2024-02-01'' @ ''.bin'') ?w) (''2024-02-01'' @ ''.bin'')"
    unfolding lookup_version[OF valid_date(1)] u ..
  have lst: "map version (list_builds (unlink (''2024-02-01'' @ ''.bin'') ?w)) = [''2024-01-01'']"
    by code_simp
  have "fst (do_DELETE ?w ''/admin/api/builds/./2024-02-01'') =
          Inr (200, PDict [(''ok'', PBool True), (''deleted'', PStr ''./2024-02-01'')])
        \<and> snd (do_DELETE ?w ''/admin/api/builds/./2024-02-01'') =
          unlink (''./2024-02-01'' @ ''.bin'') ?w"
    using del by simp
  then show ?thesis
    using r same gone lst list_builds_cong[OF u] by (simp add: lookup_example)
qed

subsection \<open>C6: the listing is sorted and flags at most one build\<close>

text \<open>
  C6, as amended. \<open>list_builds\<close> returns the artifacts of the store, their versions in
  descending lexicographic order, and a build is flagged active exactly when its
  version is the one the active pointer reads. Unless the store holds both a file
  \<open>.bin\<close> and a file \<open>.bin.bin\<close>, the versions listed are pairwise distinct and at most
  one build is flagged.
\<close>

theorem list_builds_sorted_one_active:
  "sorted_wrt (\<ge>) (map version (list_builds w))
   \<and> set (map version (list_builds w)) = set (store_versions w)
   \<and> length (list_builds w) = length (store_versions w)
   \<and> (\<forall>b \<in> set (list_builds w). active b = (version b = read_active '''' w))
   \<and> (no_stem_clash w \<longrightarrow>
        distinct (map version (list_builds w)) \<and> length (filter active (list_builds w)) \<le> 1)"
  using sorted_list_builds set_versions length_versions active_list_builds active_at_most_one
    distinct_versions_no_clash distinct_versions_list_builds
  by blast

text \<open>
  The store of the scenarios with the newer build active, its pointer file ending in a
  newline.
\<close>

theorem list_builds_sorted_one_active_witness:
  "no_stem_clash (example_world (Some ''2024-02-01\<newline>'') down prompt)
   \<and> map version (list_builds (example_world (Some ''2024-02-01\<newline>'') down prompt)) =
       [''2024-02-01'', ''2024-01-01'']
   \<and> map active (list_builds (example_world (Some ''2024-02-01\<newline>'') down prompt)) = [True, False]
   \<and> length (filter active (list_builds (example_world (Some ''2024-02-01\<newline>'') down prompt))) \<le> 1"
proof -
  let ?w = "example_world (Some ''2024-02-01\<newline>'') down prompt"
  note T = list_builds_sorted_one_active[of ?w]
  have n: "no_stem_clash ?w" by (rule example_no_clash)
  with T have o: "length (filter active (list_builds ?w)) \<le> 1"
    by blast
  have v: "map version (list_builds ?w) = [''2024-02-01'', ''2024-01-01'']"
    by code_simp
  have a: "map active (list_builds ?w) = [True, False]"
    by code_simp
  from n v a o show ?thesis by blast
qed

text \<open>
  C6 as stated fails for the store that holds the files \<open>.bin\<close> and \<open>.bin.bin\<close>: both
  get the version \<open>.bin\<close>, and with the pointer at \<open>.bin\<close> both are flagged active.
\<close>

theorem list_builds_sorted_one_active_counterexample:
  "map fst (entries \<lparr>active_file = Some ''.bin'', entries = dotted_builds\<rparr>) = [''.bin'', ''.bin.bin'']
   \<and> read_active '''' (dotted_world (Some ''.bin'')) = ''.bin''
   \<and> map version (list_builds (dotted_world (Some ''.bin''))) = [''.bin'', ''.bin'']
   \<and> map active (list_builds (dotted_world (Some ''.bin''))) = [True, True]
   \<and> length (filter active (list_builds (dotted_world (Some ''.bin'')))) = 2"
proof -
  have 1: "map fst (entries \<lparr>active_file = Some ''.bin'', entries = dotted_builds\<rparr>) = [''.bin'', ''.bin.bin'']"
    by (simp add: dotted_builds_def)
  have 2: "read_active '''' (dotted_world (Some ''.bin'')) = ''.bin''"
    by code_simp
  have 3: "map version (list_builds (dotted_world (Some ''.bin''))) = [''.bin'', ''.bin'']"
    by code_simp
  have 4: "map active (list_builds (dotted_world (Some ''.bin''))) = [True, True]"
    by code_simp
  have 5: "length (filter active (list_builds (dotted_world (Some ''.bin'')))) = 2"
    by code_simp
  from 1 2 3 4 5 show ?thesis by blast
qed

subsection \<open>C7: deleting a build that is not active\<close>

text \<open>
  C7, as amended. For a version \<open>v\<close> whose file exists and that the active pointer does
  not read, \<open>DELETE /admin/api/builds/v\<close> answers 200 and removes \<open>v.bin\<close>; the listing
  afterwards does not contain \<open>v\<close>, unless \<open>v\<close> is \<open>.bin\<close> and the store also holds the
  file \<open>.bin\<close>.
\<close>

theorem delete_inactive_removes:
  assumes "valid_version v" and "lookup w (v @ ''.bin'') = Inr (Some f)"
    and "read_active '''' w \<noteq> v" and "v = ''.bin'' \<longrightarrow> no_stem_clash w"
  shows "do_DELETE w (''/admin/api/builds/'' @ v) =
           (Inr (200, PDict [(''ok'', PBool True), (''deleted'', PStr v)]), unlink (v @ ''.bin'') w)
       \<and> lookup (snd (do_DELETE w (''/admin/api/builds/'' @ v))) (v @ ''.bin'') = Inr None
       \<and> v \<notin> set (map version (list_builds (snd (do_DELETE w (''/admin/api/builds/'' @ v)))))"
proof -
  have 1: "do_DELETE w (''/admin/api/builds/'' @ v) =
           (Inr (200, PDict [(''ok'', PBool True), (''deleted'', PStr v)]), unlink (v @ ''.bin'') w)"
    unfolding do_DELETE_version[OF assms(1)] using assms(2,3) by auto
  have 2: "v \<notin> set (map version (list_builds (unlink (v @ ''.bin'') w)))"
    unfolding set_versions using assms(1,2,4) by (intro version_gone) blast+
  show ?thesis unfolding 1 using 2 by (simp add: lookup_unlink[OF assms(1,2)])
qed

theorem delete_inactive_removes_witness:
  "do_DELETE (example_world (Some ''2024-01-01'') down prompt) ''/admin/api/builds/2024-02-01'' =
     (Inr (200, PDict [(''ok'', PBool True), (''deleted'', PStr ''2024-02-01'')]),
      unlink ''2024-02-01.bin'' (example_world (Some ''2024-01-01'') down prompt))
   \<and> map version (list_builds (unlink ''2024-02-01.bin'' (example_world (Some ''2024-01-01'') down prompt))) =
       [''2024-01-01'']
   \<and> ''2024-02-01'' \<notin> set (map version (list_builds
         (snd (do_DELETE (example_world (Some ''2024-01-01'') down prompt) ''/admin/api/builds/2024-02-01''))))"
proof -
  have r: "read_active '''' (example_world (Some ''2024-01-01'') down prompt) \<noteq> ''2024-02-01''"
    by code_simp
  have d: "''2024-02-01'' = ''.bin'' \<longrightarrow> no_stem_clash (example_world (Some ''2024-01-01'') down prompt)"
    by simp
  have l: "map version (list_builds (unlink ''2024-02-01.bin'' (example_world (Some ''2024-01-01'') down prompt))) =
       [''2024-01-01'']"
    by code_simp
  from delete_inactive_removes[OF valid_date(1) lookup_example_app(1) r d] l
  show ?thesis by simp
qed

text \<open>
  C7 as stated fails for the version \<open>.bin\<close> in the store that holds the files \<open>.bin\<close>
  and \<open>.bin.bin\<close>: the request removes \<open>.bin.bin\<close> and answers 200, and the listing
  still has the version \<open>.bin\<close>, now for the file \<open>.bin\<close>.
\<close>

theorem delete_inactive_removes_counterexample:
  "valid_version ''.bin''
   \<and> lookup (dotted_world None) ''.bin.bin'' = Inr (Some \<lparr>content = ''dd'', mtime = 2\<rparr>)
   \<and> read_active '''' (dotted_world None) \<noteq> ''.bin''
   \<and> fst (do_DELETE (dotted_world None) ''/admin/api/builds/.bin'') =
       Inr (200, PDict [(''ok'', PBool True), (''deleted'', PStr ''.bin'')])
   \<and> map version (list_builds (snd (do_DELETE (dotted_world None) ''/admin/api/builds/.bin''))) = [''.bin'']"
proof -
  let ?w = "dotted_world None"
  have v: "valid_version ''.bin''"
    by (simp add: valid_version_def)
  have l: "lookup ?w (''.bin'' @ ''.bin'') = Inr (Some \<lparr>content = ''dd'', mtime = 2\<rparr>)"
    unfolding lookup_version[OF v]
    by (simp add: fs_length_def NAME_MAX_def PATH_MAX_def dotted_world_def dotted_builds_def)
  have r: "read_active '''' ?w \<noteq> ''.bin''"
    by (simp add: read_active_def dotted_world_def)
  have del: "do_DELETE ?w (''/admin/api/builds/'' @ ''.bin'') =
      (Inr (200, PDict [(''ok'', PBool True), (''deleted'', PStr ''.bin'')]),
       unlink (''.bin'' @ ''.bin'') ?w)"
    unfolding do_DELETE_version[OF v] using r l by simp
  have lst: "map version (list_builds (unlink (''.bin'' @ ''.bin'') ?w)) = [''.bin'']"
    by code_simp
  have "fst (do_DELETE ?w ''/admin/api/builds/.bin'') =
          Inr (200, PDict [(''ok'', PBool True), (''deleted'', PStr ''.bin'')])
        \<and> snd (do_DELETE ?w ''/admin/api/builds/.bin'') = unlink (''.bin'' @ ''.bin'') ?w"
    using del by simp
  then show ?thesis using v l r lst by simp
qed

subsection \<open>C8: the prober collapses every failure\<close>

text \<open>
  C8. Whatever the probe does, \<open>get_health\<close> returns a value and raises nothing: a
  refused connection, a timeout, a body that does not parse and a status outside
  200..299 all give \<open>None\<close>; a parsed body of a successful response is returned as
  it is.
\<close>

theorem get_health_collapses:
  assumes "probes w (probes_made w) = p"
  shows "(p = Refused \<or> p = Timed_out \<or> p = Response c Unparseable
            \<or> (p = Response c b \<and> \<not> (200 \<le> c \<and> c < 300)) \<longrightarrow> fst (get_health w) = Inr PNone)
       \<and> (\<forall>e. fetch p = Inl e \<longrightarrow> fst (get_health w) = Inr PNone)
       \<and> (\<forall>v. fetch p = Inr v \<longrightarrow> fst (get_health w) = Inr v)
       \<and> (\<forall>e. fst (get_health w) \<noteq> Inl e)"
  using assms by (auto simp: get_health_def Let_def split: sum.splits)

theorem get_health_collapses_witness:
  "fst (get_health (example_world None down prompt)) = Inr PNone
   \<and> fst (get_health (example_world None (answering (PStr ''ok'')) prompt)) = Inr (PStr ''ok'')"
proof -
  have 1: "probes (example_world None down prompt) (probes_made (example_world None down prompt)) = Refused"
    by (simp add: down_def)
  have 2: "probes (example_world None (answering (PStr ''ok'')) prompt)
             (probes_made (example_world None (answering (PStr ''ok'')) prompt)) =
           Response 200 (Parsed (PStr ''ok''))"
    by (simp add: answering_def)
  from get_health_collapses[OF 1] have a: "fst (get_health (example_world None down prompt)) = Inr PNone"
    by blast
  from get_health_collapses[OF 2]
  have "fetch (Response 200 (Parsed (PStr ''ok''))) = Inr (PStr ''ok'') \<longrightarrow>
        fst (get_health (example_world None (answering (PStr ''ok'')) prompt)) = Inr (PStr ''ok'')"
    by blast
  then have "fst (get_health (example_world None (answering (PStr ''ok'')) prompt)) = Inr (PStr ''ok'')"
    by simp
  with a show ?thesis by simp
qed

subsection \<open>C9: the conflict check comes before the existence check\<close>

text \<open>
  C9. When the active pointer reads \<open>v\<close> and no file \<open>v.bin\<close> is found,
  \<open>DELETE /admin/api/builds/v\<close> answers 409, not 404.
\<close>

theorem delete_conflict_before_existence:
  assumes "valid_version v" and "read_active '''' w = v"
    and "\<And>f. lookup w (v @ ''.bin'') \<noteq> Inr (Some f)"
  shows "fst (do_DELETE w (''/admin/api/builds/'' @ v)) =
           Inr (409, PDict [(''error'', PStr ''Cannot delete the active build'')])
       \<and> fst (do_DELETE w (''/admin/api/builds/'' @ v)) \<noteq>
           Inr (404, PDict [(''error'', PStr (''Build '' @ v @ '' not found''))])"
  unfolding do_DELETE_version[OF assms(1)] using assms(2) by simp

theorem delete_conflict_before_existence_witness:
  "lookup (example_world (Some ''2023-12-01'') down prompt) ''2023-12-01.bin'' = Inr None
   \<and> fst (do_DELETE (example_world (Some ''2023-12-01'') down prompt) ''/admin/api/builds/2023-12-01'') =
       Inr (409, PDict [(''error'', PStr ''Cannot delete the active build'')])"
proof -
  have n: "lookup (example_world (Some ''2023-12-01'') down prompt) (''2023-12-01'' @ ''.bin'') \<noteq> Inr (Some f)" for f
    unfolding lookup_example_app by simp
  from delete_conflict_before_existence[OF valid_date(2) read_active_dangling n]
  show ?thesis by (simp add: lookup_example)
qed

subsection \<open>C10: a falsy body at the two call sites\<close>

text \<open>
  C10, as amended. A successful response whose body parses to a falsy value other
  than \<open>None\<close> (\<open>{}\<close>, \<open>[]\<close>, \<open>""\<close>, \<open>0\<close>, \<open>false\<close>) is reported by
  \<open>GET /admin/api/status\<close> as healthy, while a promotion whose 15 attempts all get
  that response returns the degraded message (the builds directory being there, as
  it is once the server has started).
\<close>

theorem falsy_snapshot_inconsistent:
  assumes "\<not> truthy h" and "h \<noteq> PNone" and "200 \<le> c \<and> c < 300"
  shows "(probes w (probes_made w) = Response c (Parsed h) \<longrightarrow>
            fst (do_GET w ''/admin/api/status'') =
              Inr (200, PDict [(''active_version'', PStr (read_active ''unknown'' w)),
                               (''healthy'', PBool True),
                               (''uptime_secs'', PInt 0),
                               (''build_count'', PInt (int (length (list_builds w))))]))
       \<and> (lookup w (v @ ''.bin'') = Inr (Some f) \<and> builds_dir w \<noteq> None
            \<and> restarts w (restarts_made w) = Completed rc
            \<and> (\<forall>k<15. probes w (probes_made w + k) = Response c (Parsed h)) \<longrightarrow>
            fst (promote_version w v) = Inr (True, ''Restarted but health check not yet passing''))"
proof (intro conjI impI)
  assume "probes w (probes_made w) = Response c (Parsed h)"
  then have "snapshot (probes w (probes_made w)) = h" using assms(3) by simp
  then show "fst (do_GET w ''/admin/api/status'') =
              Inr (200, PDict [(''active_version'', PStr (read_active ''unknown'' w)),
                               (''healthy'', PBool True),
                               (''uptime_secs'', PInt 0),
                               (''build_count'', PInt (int (length (list_builds w))))])"
    using assms(1,2) by (simp add: do_GET_status uptime_secs_def)
next
  assume a: "lookup w (v @ ''.bin'') = Inr (Some f) \<and> builds_dir w \<noteq> None
            \<and> restarts w (restarts_made w) = Completed rc
            \<and> (\<forall>k<15. probes w (probes_made w + k) = Response c (Parsed h))"
  let ?w = "(staged v f w)\<lparr>restarts_made := Suc (restarts_made w)\<rparr>"
  obtain d where d: "builds_dir w = Some d" using a by blast
  have p: "promote_version w v = poll 15 ?w"
    using a d by (intro promote_found_Completed) blast+
  have "\<And>k. k < 15 \<Longrightarrow> \<not> truthy (snapshot (probes ?w (probes_made ?w + k)))"
    using a assms(1,3) by simp
  from poll_exhausted[OF this]
  show "fst (promote_version w v) = Inr (True, ''Restarted but health check not yet passing'')"
    by (simp only: p)
qed

theorem falsy_snapshot_inconsistent_witness:
  "\<not> truthy (PDict []) \<and> PDict [] \<noteq> PNone
   \<and> fst (do_GET (example_world None (answering (PDict [])) prompt) ''/admin/api/status'') =
       Inr (200, PDict [(''active_version'', PStr ''unknown''),
                        (''healthy'', PBool True),
                        (''uptime_secs'', PInt 0),
                        (''build_count'', PInt 2)])
   \<and> fst (promote_version (example_world None (answering (PDict [])) prompt) ''2024-02-01'') =
       Inr (True, ''Restarted but health check not yet passing'')"
proof -
  let ?w = "example_world None (answering (PDict [])) prompt"
  have h: "\<not> truthy (PDict [])" "PDict [] \<noteq> PNone" "200 \<le> (200::nat) \<and> (200::nat) < 300"
    by simp_all
  note T = falsy_snapshot_inconsistent[OF h, of ?w "''2024-02-01''" "\<lparr>content = ''two2'', mtime = 1706745600\<rparr>" 0]
  have 1: "probes ?w (probes_made ?w) = Response 200 (Parsed (PDict []))"
    by (simp add: answering_def)
  have 2: "lookup ?w (''2024-02-01'' @ ''.bin'') = Inr (Some \<lparr>content = ''two2'', mtime = 1706745600\<rparr>)
           \<and> builds_dir ?w \<noteq> None
           \<and> restarts ?w (restarts_made ?w) = Completed 0
           \<and> (\<forall>k<15. probes ?w (probes_made ?w + k) = Response 200 (Parsed (PDict [])))"
    by (simp add: lookup_example answering_def prompt_def)
  have 3: "read_active ''unknown'' ?w = ''unknown''" by (simp add: read_active_def)
  have 4: "length (list_builds ?w) = 2"
    by (simp add: length_versions store_versions_example)
  from T 1 2 show ?thesis by (simp add: 3 4)
qed

text \<open>
  C10 as stated fails for the body \<open>null\<close>: it is falsy, and \<open>get_health\<close> returns
  \<open>None\<close> for it, so the status handler reports unhealthy as the poll loop does.
\<close>

theorem falsy_snapshot_inconsistent_counterexample:
  "\<not> truthy PNone
   \<and> probes (example_world None (answering PNone) prompt) 0 = Response 200 (Parsed PNone)
   \<and> fst (do_GET (example_world None (answering PNone) prompt) ''/admin/api/status'') =
       Inr (200, PDict [(''active_version'', PStr ''unknown''),
                        (''healthy'', PBool False),
                        (''uptime_secs'', PInt 0),
                        (''build_count'', PInt 2)])"
  by (simp add: do_GET_status answering_def uptime_secs_def read_active_def length_versions
        store_versions_example)

end
